theory Spec2Isabelle
  imports Complex_Main
begin

chapter \<open>The uniweb CLI test harness: sandbox, fluent chain, batch queue, builders\<close>

text \<open>
  A shallow embedding of the helper classes of \<^verbatim>\<open>tests/setup\<close>
  (\<^verbatim>\<open>TestEnvironment\<close>, \<^verbatim>\<open>BatchOperations\<close>, \<^verbatim>\<open>ContentBuilder\<close>,
  \<^verbatim>\<open>PerformanceHelper\<close>). JavaScript strings are \<open>string\<close>, arrays are lists,
  \<^verbatim>\<open>undefined\<close> is \<open>None\<close>, a thrown exception is the \<open>Inl\<close> branch of a sum, and
  everything outside the process (the external tool, the file system, the clock) is a
  parameter whose answers are inputs of the model.
\<close>

section \<open>JavaScript values and string primitives\<close>

datatype js_error =
    AssertionError string
  | SystemError string
  | RangeError string
  | TypeError string

text \<open>Truthiness of an optional string: \<^verbatim>\<open>undefined\<close> and \<^verbatim>\<open>""\<close> are falsy.\<close>

definition truthy :: "string option \<Rightarrow> bool" where
  "truthy v = (case v of None \<Rightarrow> False | Some s \<Rightarrow> s \<noteq> [])"

text \<open>\<^verbatim>\<open>v || d\<close> on an optional string and on an optional number (\<open>0\<close> is falsy).\<close>

definition or_else :: "string option \<Rightarrow> string \<Rightarrow> string" where
  "or_else v d = (case v of None \<Rightarrow> d | Some s \<Rightarrow> if s = [] then d else s)"

definition or_else_num :: "int option \<Rightarrow> int \<Rightarrow> int" where
  "or_else_num v d = (case v of None \<Rightarrow> d | Some n \<Rightarrow> if n = 0 then d else n)"

text \<open>\<^verbatim>\<open>Array.prototype.push\<close> with one or more elements, and \<^verbatim>\<open>Array.prototype.join\<close>.\<close>

definition push :: "'a list \<Rightarrow> 'a list \<Rightarrow> 'a list" where
  "push xs ys = xs @ ys"

fun join :: "string \<Rightarrow> string list \<Rightarrow> string" where
  "join sep [] = []"
| "join sep [x] = x"
| "join sep (x # y # ys) = x @ sep @ join sep (y # ys)"

text \<open>
  \<^verbatim>\<open>s.split(c)\<close> for a one-character separator: the result is never empty
  (\<^verbatim>\<open>"".split("\n")\<close> is \<^verbatim>\<open>[""]\<close>).
\<close>

fun split :: "char \<Rightarrow> string \<Rightarrow> string list" where
  "split c [] = [[]]"
| "split c (x # xs) =
     (if x = c then [] # split c xs
      else (case split c xs of
              [] \<Rightarrow> [[x]]
            | y # ys \<Rightarrow> (x # y) # ys))"

text \<open>\<^verbatim>\<open>arr[0]\<close>: the first element, \<^verbatim>\<open>undefined\<close> on an empty array.\<close>

definition first_elem :: "'a list \<Rightarrow> 'a option" where
  "first_elem xs = (case xs of [] \<Rightarrow> None | x # _ \<Rightarrow> Some x)"

text \<open>\<^verbatim>\<open>String.prototype.startsWith\<close> and \<^verbatim>\<open>String.prototype.includes\<close>.\<close>

fun starts_with :: "string \<Rightarrow> string \<Rightarrow> bool" where
  "starts_with s [] = True"
| "starts_with [] (n # ns) = False"
| "starts_with (c # cs) (n # ns) = (c = n \<and> starts_with cs ns)"

fun str_includes :: "string \<Rightarrow> string \<Rightarrow> bool" where
  "str_includes [] needle = (needle = [])"
| "str_includes (c # cs) needle = (starts_with (c # cs) needle \<or> str_includes cs needle)"

definition newline :: char where
  "newline = CHR 0x0A"

definition quote :: string where
  "quote = [CHR 0x27]"

definition dquote :: string where
  "dquote = [CHR 0x22]"

section \<open>The sandbox: running the external tool\<close>

text \<open>
  What \<^verbatim>\<open>await execa("uniweb", args, {cwd})\<close> hands back: the resolved child-process
  result, or the error it throws, whose \<^verbatim>\<open>stdout\<close>, \<^verbatim>\<open>stderr\<close> and \<^verbatim>\<open>exitCode\<close> are
  missing when the process could not be launched. The extra options that \<^verbatim>\<open>runUniweb\<close>
  can pass on to \<^verbatim>\<open>execa\<close> are left at their default, the empty object.
\<close>

record exec_result =
  r_stdout :: string
  r_stderr :: string
  r_exitCode :: int

record exec_error =
  e_stdout :: "string option"
  e_stderr :: "string option"
  e_exitCode :: "int option"
  e_message :: string

record run_result =
  success :: bool
  stdout :: string
  stderr :: string
  exitCode :: int
  error :: "string option"

text \<open>
  What a path leads to: a regular file that can be read, with its text, or a directory.
  The file system answers for a directory and a path relative to it (the
  \<^verbatim>\<open>path.join\<close> of the two is resolved by the platform). The external tool runs in a
  working directory with an argument vector and may change the file system.
\<close>

datatype entry = File string | Dir

type_synonym fs = "string \<Rightarrow> string \<Rightarrow> entry option"

type_synonym execa = "string option \<Rightarrow> string list \<Rightarrow> fs \<Rightarrow> (exec_error + exec_result) \<times> fs"

record TestEnvironment =
  tempDir :: "string option"
  originalCwd :: string

definition runUniweb ::
  "execa \<Rightarrow> TestEnvironment \<Rightarrow> string list \<Rightarrow> fs \<Rightarrow> (js_error + run_result) \<times> fs" where
  "runUniweb ex this args fs0 =
     (case ex (tempDir this) args fs0 of
        (Inr result, fs1) \<Rightarrow>
          (Inr \<lparr> success = True,
                 stdout = r_stdout result,
                 stderr = r_stderr result,
                 exitCode = r_exitCode result,
                 error = None \<rparr>, fs1)
      | (Inl err, fs1) \<Rightarrow>
          (Inr \<lparr> success = False,
                 stdout = or_else (e_stdout err) [],
                 stderr = or_else (e_stderr err) [],
                 exitCode = or_else_num (e_exitCode err) 1,
                 error = Some (e_message err) \<rparr>, fs1))"

text \<open>
  The exit status the child process reported, if it ran to an exit; and the contract of
  \<^verbatim>\<open>execa\<close> under its default options: the promise resolves only for exit code 0 and
  a rejection never carries exit code 0.
\<close>

definition exit_status :: "exec_error + exec_result \<Rightarrow> int option" where
  "exit_status awaited = (case awaited of Inr result \<Rightarrow> Some (r_exitCode result) | Inl err \<Rightarrow> e_exitCode err)"

definition rejects_nonzero :: "exec_error + exec_result \<Rightarrow> bool" where
  "rejects_nonzero awaited =
     (case awaited of Inr result \<Rightarrow> r_exitCode result = 0 | Inl err \<Rightarrow> e_exitCode err \<noteq> Some 0)"

section \<open>The sandbox: file accessors and assertion helpers\<close>

definition fileExists :: "TestEnvironment \<Rightarrow> fs \<Rightarrow> string \<Rightarrow> js_error + bool" where
  "fileExists this fs0 filePath =
     (case tempDir this of
        None \<Rightarrow> Inl (TypeError ''The path argument must be of type string'')
      | Some d \<Rightarrow> Inr (fs0 d filePath \<noteq> None))"

definition readFile :: "TestEnvironment \<Rightarrow> fs \<Rightarrow> string \<Rightarrow> js_error + string" where
  "readFile this fs0 filePath =
     (case tempDir this of
        None \<Rightarrow> Inl (TypeError ''The path argument must be of type string'')
      | Some d \<Rightarrow>
          (case fs0 d filePath of
             None \<Rightarrow> Inl (SystemError ''ENOENT'')
           | Some Dir \<Rightarrow> Inl (SystemError ''EISDIR'')
           | Some (File text) \<Rightarrow> Inr text))"

definition expectFileExists ::
  "TestEnvironment \<Rightarrow> fs \<Rightarrow> string \<Rightarrow> string option \<Rightarrow> js_error + unit" where
  "expectFileExists this fs0 filePath message =
     (case fileExists this fs0 filePath of
        Inl e \<Rightarrow> Inl e
      | Inr exists \<Rightarrow>
          (if exists then Inr ()
           else Inl (AssertionError
                  (or_else message (''Expected file '' @ filePath @ '' to exist'')))))"

definition expectFileContains ::
  "TestEnvironment \<Rightarrow> fs \<Rightarrow> string \<Rightarrow> string \<Rightarrow> string option \<Rightarrow> js_error + unit" where
  "expectFileContains this fs0 filePath content message =
     (case expectFileExists this fs0 filePath None of
        Inl e \<Rightarrow> Inl e
      | Inr _ \<Rightarrow>
          (case readFile this fs0 filePath of
             Inl e \<Rightarrow> Inl e
           | Inr fileContent \<Rightarrow>
               (if str_includes fileContent content then Inr ()
                else Inl (AssertionError
                       (or_else message
                          (''Expected '' @ filePath @ '' to contain '' @ dquote @ content @ dquote))))))"

definition expectCommandSuccess ::
  "execa \<Rightarrow> TestEnvironment \<Rightarrow> string list \<Rightarrow> string option \<Rightarrow> fs \<Rightarrow> (js_error + run_result) \<times> fs" where
  "expectCommandSuccess ex this args message fs0 =
     (case runUniweb ex this args fs0 of
        (Inl e, fs1) \<Rightarrow> (Inl e, fs1)
      | (Inr result, fs1) \<Rightarrow>
          (if success result then (Inr result, fs1)
           else (Inl (AssertionError
                   (or_else message
                      (''Expected '' @ quote @ ''uniweb '' @ join '' '' args @ quote
                         @ '' to succeed. Error: '' @ or_else (error result) (stderr result)))), fs1)))"

section \<open>The fluent operation chain\<close>

text \<open>
  The option object of the fluent operations. A field that the caller left out is
  \<open>None\<close>; every guard of the source is a truthiness test, so a field holding the empty
  string counts as left out. The field \<^verbatim>\<open>locale\<close> is \<open>locale_opt\<close> here.
\<close>

record options =
  singleSite :: bool
  module :: "string option"
  site :: "string option"
  page :: "string option"
  position :: "string option"
  locale_opt :: "string option"

definition no_options :: options where
  "no_options = \<lparr> singleSite = False, module = None, site = None, page = None,
                   position = None, locale_opt = None \<rparr>"

text \<open>
  The argument vector each of \<^verbatim>\<open>initProject\<close>, \<^verbatim>\<open>addSection\<close> and \<^verbatim>\<open>setSection\<close> builds
  in its first statements, before it calls the tool: an array that starts with the
  subcommand and the name and grows by one \<^verbatim>\<open>push\<close> per guarded option.
\<close>

definition initProject_args :: "string \<Rightarrow> options \<Rightarrow> string list" where
  "initProject_args name opts =
     (let args = [''init'', name];
          args = (if singleSite opts then push args [''--single-site''] else args);
          args = (if truthy (module opts) then push args [''--module'', the (module opts)] else args);
          args = (if truthy (site opts) then push args [''--site'', the (site opts)] else args)
      in args)"

definition addSection_args :: "string \<Rightarrow> options \<Rightarrow> string list" where
  "addSection_args name opts =
     (let args = [''add'', ''section'', name];
          args = (if truthy (page opts) then push args [''--page'', the (page opts)] else args);
          args = (if truthy (site opts) then push args [''--site'', the (site opts)] else args);
          args = (if truthy (position opts) then push args [''--position'', the (position opts)] else args)
      in args)"

definition setSection_args :: "string \<Rightarrow> string \<Rightarrow> options \<Rightarrow> string list" where
  "setSection_args name content opts =
     (let args = [''set'', ''section'', name];
          args = (if truthy (page opts) then push args [''--page'', the (page opts)] else args);
          args = (if truthy (site opts) then push args [''--site'', the (site opts)] else args);
          args = (if truthy (locale_opt opts) then push args [''--locale'', the (locale_opt opts)] else args);
          args = push args [''--body'', content]
      in args)"

text \<open>The path that \<^verbatim>\<open>setSection\<close> verifies, as its three conditional expressions compute it.\<close>

definition setSection_filePath :: "string \<Rightarrow> options \<Rightarrow> string" where
  "setSection_filePath name opts =
     (let basePath = (if truthy (site opts) then ''sites/'' @ the (site opts) @ ''/pages'' else ''pages'');
          pagePath = (if truthy (page opts) then basePath @ ''/'' @ the (page opts) else basePath);
          filePath = (if truthy (locale_opt opts)
                      then ''locales/'' @ the (locale_opt opts) @ ''/'' @ pagePath @ ''/'' @ name @ ''.md''
                      else pagePath @ ''/'' @ name @ ''.md'')
      in filePath)"

text \<open>
  \<^verbatim>\<open>content.split("\n")[0]\<close>, and \<^verbatim>\<open>setSection\<close> itself: build the arguments, require the
  tool to succeed, then require the file to contain the first line, and return the
  sandbox. (The split never gives an empty array, so the first element is always there.)
\<close>

definition first_line :: "string \<Rightarrow> string option" where
  "first_line content = first_elem (split newline content)"

definition setSection ::
  "execa \<Rightarrow> TestEnvironment \<Rightarrow> string \<Rightarrow> string \<Rightarrow> options \<Rightarrow> fs
     \<Rightarrow> (js_error + TestEnvironment) \<times> fs" where
  "setSection ex this name content opts fs0 =
     (case expectCommandSuccess ex this (setSection_args name content opts) None fs0 of
        (Inl e, fs1) \<Rightarrow> (Inl e, fs1)
      | (Inr _, fs1) \<Rightarrow>
          (case first_line content of
             None \<Rightarrow> (Inl (TypeError ''undefined is not a string''), fs1)
           | Some line \<Rightarrow>
               (case expectFileContains this fs1 (setSection_filePath name opts) line None of
                  Inl e \<Rightarrow> (Inl e, fs1)
                | Inr _ \<Rightarrow> (Inr this, fs1))))"

section \<open>BatchOperations: the deferred queue\<close>

text \<open>
  A queued record \<^verbatim>\<open>{type, name, options, content?}\<close>. The sandbox the batch replays
  against is seen through the three methods \<^verbatim>\<open>execute\<close> calls; each either throws or
  returns, and changes the world it runs in. The value a method returns is dropped by
  \<^verbatim>\<open>execute\<close>, so only the exception, if any, is kept.
\<close>

record batch_op =
  op_type :: string
  op_name :: string
  op_options :: options
  op_content :: "string option"

record 'w sandbox =
  sb_addPage :: "string \<Rightarrow> options \<Rightarrow> 'w \<Rightarrow> js_error option \<times> 'w"
  sb_addSection :: "string \<Rightarrow> options \<Rightarrow> 'w \<Rightarrow> js_error option \<times> 'w"
  sb_setSection :: "string \<Rightarrow> string option \<Rightarrow> options \<Rightarrow> 'w \<Rightarrow> js_error option \<times> 'w"

record 'w BatchOperations =
  env :: "'w sandbox"
  operations :: "batch_op list"

definition BatchOperations_new :: "'w sandbox \<Rightarrow> 'w BatchOperations" where
  "BatchOperations_new e = \<lparr> env = e, operations = [] \<rparr>"

definition batch_addPage :: "'w BatchOperations \<Rightarrow> string \<Rightarrow> options \<Rightarrow> 'w BatchOperations" where
  "batch_addPage this name opts =
     this\<lparr> operations := push (operations this)
       [\<lparr> op_type = ''addPage'', op_name = name, op_options = opts, op_content = None \<rparr>] \<rparr>"

definition batch_addSection :: "'w BatchOperations \<Rightarrow> string \<Rightarrow> options \<Rightarrow> 'w BatchOperations" where
  "batch_addSection this name opts =
     this\<lparr> operations := push (operations this)
       [\<lparr> op_type = ''addSection'', op_name = name, op_options = opts, op_content = None \<rparr>] \<rparr>"

definition batch_setSection ::
  "'w BatchOperations \<Rightarrow> string \<Rightarrow> string \<Rightarrow> options \<Rightarrow> 'w BatchOperations" where
  "batch_setSection this name content opts =
     this\<lparr> operations := push (operations this)
       [\<lparr> op_type = ''setSection'', op_name = name, op_options = opts, op_content = Some content \<rparr>] \<rparr>"

text \<open>The \<^verbatim>\<open>switch (op.type)\<close> of \<^verbatim>\<open>execute\<close>; it has no default branch.\<close>

definition dispatch :: "'w sandbox \<Rightarrow> batch_op \<Rightarrow> 'w \<Rightarrow> js_error option \<times> 'w" where
  "dispatch sb op w =
     (if op_type op = ''addPage'' then sb_addPage sb (op_name op) (op_options op) w
      else if op_type op = ''addSection'' then sb_addSection sb (op_name op) (op_options op) w
      else if op_type op = ''setSection''
        then sb_setSection sb (op_name op) (op_content op) (op_options op) w
      else (None, w))"

text \<open>The \<^verbatim>\<open>for ... of\<close> loop: an exception thrown by an awaited call leaves the loop.\<close>

fun execute_loop :: "'w sandbox \<Rightarrow> batch_op list \<Rightarrow> 'w \<Rightarrow> js_error option \<times> 'w" where
  "execute_loop sb [] w = (None, w)"
| "execute_loop sb (op # ops) w =
     (case dispatch sb op w of
        (Some e, w1) \<Rightarrow> (Some e, w1)
      | (None, w1) \<Rightarrow> execute_loop sb ops w1)"

text \<open>
  \<^verbatim>\<open>execute\<close> returns the exception or \<^verbatim>\<open>this.env\<close>, together with the batch object
  as the call leaves it and the world after the calls.
\<close>

definition execute ::
  "'w BatchOperations \<Rightarrow> 'w \<Rightarrow> (js_error + 'w sandbox) \<times> 'w BatchOperations \<times> 'w" where
  "execute this w =
     (case execute_loop (env this) (operations this) w of
        (Some e, w1) \<Rightarrow> (Inl e, this, w1)
      | (None, w1) \<Rightarrow> (Inr (env this), this, w1))"

text \<open>
  To observe which sandbox methods a run reaches, and in which order, a sandbox is
  wrapped so that every call first appends itself to a log kept beside the world.
\<close>

datatype env_call =
    AddPage string options
  | AddSection string options
  | SetSection string "string option" options

definition logged :: "'w sandbox \<Rightarrow> ('w \<times> env_call list) sandbox" where
  "logged sb =
     \<lparr> sb_addPage = (\<lambda>name opts (w, calls).
          (case sb_addPage sb name opts w of (r, w1) \<Rightarrow> (r, (w1, calls @ [AddPage name opts])))),
       sb_addSection = (\<lambda>name opts (w, calls).
          (case sb_addSection sb name opts w of (r, w1) \<Rightarrow> (r, (w1, calls @ [AddSection name opts])))),
       sb_setSection = (\<lambda>name content opts (w, calls).
          (case sb_setSection sb name content opts w of
             (r, w1) \<Rightarrow> (r, (w1, calls @ [SetSection name content opts])))) \<rparr>"

text \<open>The calls a caller can make on a batch before running it.\<close>

datatype batch_decl =
    DeclAddPage string options
  | DeclAddSection string options
  | DeclSetSection string string options

fun enqueue :: "'w BatchOperations \<Rightarrow> batch_decl \<Rightarrow> 'w BatchOperations" where
  "enqueue b (DeclAddPage name opts) = batch_addPage b name opts"
| "enqueue b (DeclAddSection name opts) = batch_addSection b name opts"
| "enqueue b (DeclSetSection name content opts) = batch_setSection b name content opts"

text \<open>
  What the specification expects of one such call: the record it queues and the sandbox
  call that record stands for.
\<close>

fun record_of :: "batch_decl \<Rightarrow> batch_op" where
  "record_of (DeclAddPage name opts) =
     \<lparr> op_type = ''addPage'', op_name = name, op_options = opts, op_content = None \<rparr>"
| "record_of (DeclAddSection name opts) =
     \<lparr> op_type = ''addSection'', op_name = name, op_options = opts, op_content = None \<rparr>"
| "record_of (DeclSetSection name content opts) =
     \<lparr> op_type = ''setSection'', op_name = name, op_options = opts, op_content = Some content \<rparr>"

fun call_of :: "batch_decl \<Rightarrow> env_call" where
  "call_of (DeclAddPage name opts) = AddPage name opts"
| "call_of (DeclAddSection name opts) = AddSection name opts"
| "call_of (DeclSetSection name content opts) = SetSection name (Some content) opts"

text \<open>One sandbox call run directly, outside any batch.\<close>

fun run_call :: "'w sandbox \<Rightarrow> env_call \<Rightarrow> 'w \<Rightarrow> js_error option \<times> 'w" where
  "run_call sb (AddPage name opts) w = sb_addPage sb name opts w"
| "run_call sb (AddSection name opts) w = sb_addSection sb name opts w"
| "run_call sb (SetSection name content opts) w = sb_setSection sb name content opts w"

text \<open>Running a list of sandbox calls one after the other succeeds when none of them throws.\<close>

fun all_succeed :: "'w sandbox \<Rightarrow> env_call list \<Rightarrow> 'w \<Rightarrow> 'w option" where
  "all_succeed sb [] w = Some w"
| "all_succeed sb (c # cs) w =
     (case run_call sb c w of
        (Some e, w1) \<Rightarrow> None
      | (None, w1) \<Rightarrow> all_succeed sb cs w1)"

section \<open>JavaScript objects used as dictionaries\<close>

text \<open>
  A plain object with string keys, as the list of its own properties in the order they
  were created. Values are primitives. Two rules of the language matter to the code:
  an assignment to the key \<^verbatim>\<open>__proto__\<close> reaches the accessor of \<^verbatim>\<open>Object.prototype\<close>,
  which ignores a primitive, so no own property appears; and \<^verbatim>\<open>Object.keys\<close> and
  \<^verbatim>\<open>Object.entries\<close> list the keys that are array indices (canonical decimal numerals
  below \<open>2\<^sup>3\<^sup>2 - 1\<close>) first, in ascending numeric order, and the other keys after
  them in creation order.
\<close>

type_synonym 'v jsobj = "(string \<times> 'v) list"

definition is_digit :: "char \<Rightarrow> bool" where
  "is_digit c = (48 \<le> (of_char c :: nat) \<and> (of_char c :: nat) \<le> 57)"

definition dec_val :: "string \<Rightarrow> nat" where
  "dec_val s = foldl (\<lambda>n c. 10 * n + ((of_char c :: nat) - 48)) 0 s"

definition is_array_index :: "string \<Rightarrow> bool" where
  "is_array_index s =
     (case s of
        [] \<Rightarrow> False
      | c # cs \<Rightarrow> list_all is_digit s \<and> (c \<noteq> CHR ''0'' \<or> cs = []) \<and> dec_val s < 4294967295)"

definition obj_set :: "'v jsobj \<Rightarrow> string \<Rightarrow> 'v \<Rightarrow> 'v jsobj" where
  "obj_set obj key v =
     (if key = ''__proto__'' then obj
      else if key \<in> set (map fst obj) then map (\<lambda>(k, x). if k = key then (k, v) else (k, x)) obj
      else obj @ [(key, v)])"

definition own_key_order :: "string list \<Rightarrow> string list" where
  "own_key_order ks = sort_key dec_val (filter is_array_index ks) @ filter (\<lambda>k. \<not> is_array_index k) ks"

definition Object_keys :: "'v jsobj \<Rightarrow> string list" where
  "Object_keys obj = own_key_order (map fst obj)"

definition Object_entries :: "'v jsobj \<Rightarrow> (string \<times> 'v) list" where
  "Object_entries obj = List.map_filter (\<lambda>k. map_option (\<lambda>v. (k, v)) (map_of obj k)) (Object_keys obj)"

section \<open>ContentBuilder\<close>

text \<open>
  The builder holds the front-matter object and the array of body blocks. The values of
  the front matter are of any primitive type \<open>'v\<close>; \<open>build\<close> takes the conversion that a
  template literal applies to them. Strings have no length limit in the model. The
  methods \<^verbatim>\<open>paragraph\<close>, \<^verbatim>\<open>list\<close> and \<^verbatim>\<open>image\<close> are \<open>paragraph_md\<close>, \<open>list_items\<close> and
  \<open>image_md\<close> here.
\<close>

record 'v ContentBuilder =
  frontMatter :: "'v jsobj"
  body :: "string list"

definition ContentBuilder_new :: "'v ContentBuilder" where
  "ContentBuilder_new = \<lparr> frontMatter = [], body = [] \<rparr>"

definition component :: "'v ContentBuilder \<Rightarrow> 'v \<Rightarrow> 'v ContentBuilder" where
  "component this name = this\<lparr> frontMatter := obj_set (frontMatter this) ''component'' name \<rparr>"

definition param :: "'v ContentBuilder \<Rightarrow> string \<Rightarrow> 'v \<Rightarrow> 'v ContentBuilder" where
  "param this key v = this\<lparr> frontMatter := obj_set (frontMatter this) key v \<rparr>"

definition title :: "'v ContentBuilder \<Rightarrow> string \<Rightarrow> 'v ContentBuilder" where
  "title this txt = this\<lparr> body := push (body this) [''# '' @ txt] \<rparr>"

definition paragraph_md :: "'v ContentBuilder \<Rightarrow> string \<Rightarrow> 'v ContentBuilder" where
  "paragraph_md this txt = this\<lparr> body := push (body this) [txt] \<rparr>"

text \<open>\<^verbatim>\<open>"#".repeat(level)\<close> throws a \<^verbatim>\<open>RangeError\<close> for a negative count.\<close>

definition heading :: "'v ContentBuilder \<Rightarrow> int \<Rightarrow> string \<Rightarrow> js_error + 'v ContentBuilder" where
  "heading this level txt =
     (if level < 0 then Inl (RangeError ''Invalid count value'')
      else Inr (this\<lparr> body := push (body this) [replicate (nat level) CHR ''#'' @ '' '' @ txt] \<rparr>))"

definition list_items :: "'v ContentBuilder \<Rightarrow> string list \<Rightarrow> 'v ContentBuilder" where
  "list_items this items =
     foldl (\<lambda>b item. b\<lparr> body := push (body b) [''- '' @ item] \<rparr>) this items"

definition image_md :: "'v ContentBuilder \<Rightarrow> string \<Rightarrow> string \<Rightarrow> 'v ContentBuilder" where
  "image_md this src alt = this\<lparr> body := push (body this) [''!['' @ alt @ ''](''  @ src @ '')''] \<rparr>"

definition link :: "'v ContentBuilder \<Rightarrow> string \<Rightarrow> string \<Rightarrow> 'v jsobj \<Rightarrow> 'v ContentBuilder" where
  "link this txt url attributes =
     (let attrs = (if length (Object_keys attributes) > 0
                   then ''{'' @ join '' '' (Object_keys attributes) @ ''}''
                   else [])
      in this\<lparr> body := push (body this) [''['' @ txt @ ''](''  @ url @ '')'' @ attrs] \<rparr>)"

definition build :: "('v \<Rightarrow> string) \<Rightarrow> 'v ContentBuilder \<Rightarrow> string" where
  "build to_str this =
     (let frontMatterString =
            (if length (Object_keys (frontMatter this)) > 0
             then ''---'' @ [newline]
                    @ join [newline] (map (\<lambda>(k, v). k @ '': '' @ to_str v) (Object_entries (frontMatter this)))
                    @ [newline] @ ''---'' @ [newline, newline]
             else [])
      in frontMatterString @ join [newline, newline] (body this))"

text \<open>A sequence of builder calls; it stops at the first call that throws.\<close>

datatype 'v builder_call =
    Component 'v
  | Param string 'v
  | Title string
  | Paragraph string
  | Heading int string
  | ListItems "string list"
  | Image string string
  | Link string string "'v jsobj"

fun apply_call :: "'v ContentBuilder \<Rightarrow> 'v builder_call \<Rightarrow> js_error + 'v ContentBuilder" where
  "apply_call b (Component name) = Inr (component b name)"
| "apply_call b (Param key v) = Inr (param b key v)"
| "apply_call b (Title txt) = Inr (title b txt)"
| "apply_call b (Paragraph txt) = Inr (paragraph_md b txt)"
| "apply_call b (Heading level txt) = heading b level txt"
| "apply_call b (ListItems items) = Inr (list_items b items)"
| "apply_call b (Image src alt) = Inr (image_md b src alt)"
| "apply_call b (Link txt url attributes) = Inr (link b txt url attributes)"

fun run_calls :: "'v ContentBuilder \<Rightarrow> 'v builder_call list \<Rightarrow> js_error + 'v ContentBuilder" where
  "run_calls b [] = Inr b"
| "run_calls b (c # cs) = (case apply_call b c of Inl e \<Rightarrow> Inl e | Inr b1 \<Rightarrow> run_calls b1 cs)"

section \<open>The sandbox: teardown\<close>

text \<open>
  \<^verbatim>\<open>process.chdir\<close>, \<^verbatim>\<open>fs.remove\<close> and \<^verbatim>\<open>console.warn\<close> act on the state of the process
  and its file system. The first two either throw an error with a message or return;
  a removal that fails may already have removed part of the tree.
\<close>

record 'w os =
  os_chdir :: "string \<Rightarrow> 'w \<Rightarrow> (string + unit) \<times> 'w"
  os_remove :: "string \<Rightarrow> 'w \<Rightarrow> (string + unit) \<times> 'w"
  os_warn :: "string \<Rightarrow> 'w \<Rightarrow> 'w"

definition cleanup_warning :: "string \<Rightarrow> string \<Rightarrow> string" where
  "cleanup_warning dir msg = ''Warning: Could not clean up temp directory '' @ dir @ '': '' @ msg"

definition cleanup :: "'w os \<Rightarrow> TestEnvironment \<Rightarrow> 'w \<Rightarrow> (js_error + unit) \<times> 'w" where
  "cleanup os this w =
     (if truthy (tempDir this) then
        (case os_chdir os (originalCwd this) w of
           (Inl msg, w1) \<Rightarrow> (Inr (), os_warn os (cleanup_warning (the (tempDir this)) msg) w1)
         | (Inr _, w1) \<Rightarrow>
             (case os_remove os (the (tempDir this)) w1 of
                (Inl msg, w2) \<Rightarrow> (Inr (), os_warn os (cleanup_warning (the (tempDir this)) msg) w2)
              | (Inr _, w2) \<Rightarrow> (Inr (), w2)))
      else (Inr (), w))"

text \<open>
  A small process state to run \<open>cleanup\<close> on: the working directory, the directories
  that exist, and the console. Entering a directory that does not exist fails; removing
  a directory takes it and everything below it away, unless the path is held busy.
\<close>

record process =
  cwd :: string
  dirs :: "string list"
  busy :: "string list"
  console :: "string list"

definition simple_os :: "process os" where
  "simple_os =
     \<lparr> os_chdir = (\<lambda>d p. if d \<in> set (dirs p) then (Inr (), p\<lparr> cwd := d \<rparr>)
                           else (Inl (''ENOENT: no such file or directory, chdir '' @ d), p)),
       os_remove = (\<lambda>d p. if d \<in> set (busy p) then (Inl (''EBUSY: resource busy or locked, rmdir '' @ d), p)
                            else (Inr (), p\<lparr> dirs := filter (\<lambda>x. \<not> starts_with x d) (dirs p) \<rparr>)),
       os_warn = (\<lambda>m p. p\<lparr> console := console p @ [m] \<rparr>) \<rparr>"

section \<open>Values parsed from YAML and property paths\<close>

text \<open>
  The values \<^verbatim>\<open>yaml.parse\<close> returns are null, booleans, numbers, strings, arrays and
  plain objects. A property read can also leave this data: every object inherits members
  from the built-in prototypes, which are functions and objects of the runtime; such a
  value is \<open>JNative\<close>, identified by a name. Which members a value inherits, and what a
  read on a native value gives (it may throw), is decided by the runtime and is a
  parameter of the model.
\<close>

datatype jsval =
    JUndefined
  | JNull
  | JBool bool
  | JNum real
  | JStr string
  | JArr "jsval list"
  | JObj "(string \<times> jsval) list"
  | JNative string

type_synonym builtins = "jsval \<Rightarrow> string \<Rightarrow> (js_error + jsval) option"

text \<open>The own properties of a value: the keys of a mapping, the indices and the length of an array or a string.\<close>

fun own_prop :: "jsval \<Rightarrow> string \<Rightarrow> jsval option" where
  "own_prop (JStr s) key =
     (if key = ''length'' then Some (JNum (of_nat (length s)))
      else if is_array_index key \<and> dec_val key < length s then Some (JStr [s ! dec_val key])
      else None)"
| "own_prop (JArr xs) key =
     (if key = ''length'' then Some (JNum (of_nat (length xs)))
      else if is_array_index key \<and> dec_val key < length xs then Some (xs ! dec_val key)
      else None)"
| "own_prop (JObj kvs) key = map_of kvs key"
| "own_prop v key = None"

text \<open>\<^verbatim>\<open>current?.[key]\<close>: \<^verbatim>\<open>undefined\<close> on \<^verbatim>\<open>null\<close> and \<^verbatim>\<open>undefined\<close>, else an own property, else an inherited member, else \<^verbatim>\<open>undefined\<close>.\<close>

definition get_prop :: "builtins \<Rightarrow> jsval \<Rightarrow> string \<Rightarrow> js_error + jsval" where
  "get_prop inherited current key =
     (if current = JUndefined \<or> current = JNull then Inr JUndefined
      else (case own_prop current key of
              Some v \<Rightarrow> Inr v
            | None \<Rightarrow> (case inherited current key of
                          Some r \<Rightarrow> r
                        | None \<Rightarrow> Inr JUndefined)))"

text \<open>\<^verbatim>\<open>keys.reduce((current, key) => current?.[key], obj)\<close>: an exception ends the reduction.\<close>

fun reduce_keys :: "builtins \<Rightarrow> string list \<Rightarrow> jsval \<Rightarrow> js_error + jsval" where
  "reduce_keys inherited [] current = Inr current"
| "reduce_keys inherited (key # keys) current =
     (case get_prop inherited current key of
        Inl e \<Rightarrow> Inl e
      | Inr v \<Rightarrow> reduce_keys inherited keys v)"

definition getNestedProperty :: "builtins \<Rightarrow> jsval \<Rightarrow> string \<Rightarrow> js_error + jsval" where
  "getNestedProperty inherited obj path = reduce_keys inherited (split CHR ''.'' path) obj"

text \<open>\<^verbatim>\<open>readYaml\<close> and \<^verbatim>\<open>expectYamlProperty\<close>; the YAML parser and the deep equality of the test runner are parameters.\<close>

definition readYaml ::
  "(string \<Rightarrow> js_error + jsval) \<Rightarrow> TestEnvironment \<Rightarrow> fs \<Rightarrow> string \<Rightarrow> js_error + jsval" where
  "readYaml yaml_parse this fs0 filePath =
     (case readFile this fs0 filePath of
        Inl e \<Rightarrow> Inl e
      | Inr content \<Rightarrow> yaml_parse content)"

definition expectYamlProperty ::
  "(string \<Rightarrow> js_error + jsval) \<Rightarrow> (jsval \<Rightarrow> jsval \<Rightarrow> bool) \<Rightarrow> builtins \<Rightarrow> TestEnvironment \<Rightarrow> fs
     \<Rightarrow> string \<Rightarrow> string \<Rightarrow> jsval \<Rightarrow> string option \<Rightarrow> js_error + unit" where
  "expectYamlProperty yaml_parse to_equal inherited this fs0 filePath property expectedValue message =
     (case expectFileExists this fs0 filePath None of
        Inl e \<Rightarrow> Inl e
      | Inr _ \<Rightarrow>
          (case readYaml yaml_parse this fs0 filePath of
             Inl e \<Rightarrow> Inl e
           | Inr yamlContent \<Rightarrow>
               (case getNestedProperty inherited yamlContent property of
                  Inl e \<Rightarrow> Inl e
                | Inr actualValue \<Rightarrow>
                    (if to_equal actualValue expectedValue then Inr ()
                     else Inl (AssertionError
                            (or_else message (''Expected '' @ filePath @ ''.'' @ property @ '' to equal the expected value'')))))))"

text \<open>
  Data as the parser produces it: no \<^verbatim>\<open>undefined\<close> and no native value inside. The
  descent the specification describes stays on own properties and gives \<^verbatim>\<open>undefined\<close>
  from the first key that is missing or whose holder is \<^verbatim>\<open>null\<close> or \<^verbatim>\<open>undefined\<close>.
\<close>

fun yaml_value :: "jsval \<Rightarrow> bool" where
  "yaml_value JUndefined = False"
| "yaml_value (JNative n) = False"
| "yaml_value (JArr xs) = list_all yaml_value xs"
| "yaml_value (JObj kvs) = list_all (\<lambda>kv. yaml_value (snd kv)) kvs"
| "yaml_value v = True"

fun descend :: "jsval \<Rightarrow> string list \<Rightarrow> jsval" where
  "descend v [] = v"
| "descend v (key # keys) =
     (if v = JUndefined \<or> v = JNull then JUndefined
      else (case own_prop v key of
              None \<Rightarrow> JUndefined
            | Some x \<Rightarrow> descend x keys))"

text \<open>
  Two members every runtime has: a plain object inherits \<^verbatim>\<open>constructor\<close>, the function
  \<^verbatim>\<open>Object\<close>, whose \<^verbatim>\<open>name\<close> is the string \<^verbatim>\<open>"Object"\<close>.
\<close>

definition ecma_core :: builtins where
  "ecma_core v key =
     (case v of
        JObj kvs \<Rightarrow> (if key = ''constructor'' then Some (Inr (JNative ''Object'')) else None)
      | JNative f \<Rightarrow> (if f = ''Object'' \<and> key = ''name'' then Some (Inr (JStr ''Object'')) else None)
      | _ \<Rightarrow> None)"

section \<open>PerformanceHelper\<close>

text \<open>
  \<^verbatim>\<open>Date.now()\<close> reads the clock of the world. The timed operation is any closure: it
  may throw, it changes the world, and it can reach the helper itself.
\<close>

record PerformanceHelper =
  metrics :: "int jsobj"

definition timeOperation ::
  "('w \<Rightarrow> int) \<Rightarrow> PerformanceHelper \<Rightarrow> string
     \<Rightarrow> (PerformanceHelper \<times> 'w \<Rightarrow> (js_error + 'r) \<times> PerformanceHelper \<times> 'w) \<Rightarrow> 'w
     \<Rightarrow> (js_error + 'r \<times> int) \<times> PerformanceHelper \<times> 'w" where
  "timeOperation now this name operation w =
     (let start = now w in
      case operation (this, w) of
        (Inl e, this1, w1) \<Rightarrow> (Inl e, this1, w1)
      | (Inr result, this1, w1) \<Rightarrow>
          (let duration = now w1 - start;
               this2 = this1\<lparr> metrics := obj_set (metrics this1) name duration \<rparr>
           in (Inr (result, duration), this2, w1)))"

section \<open>The rules of the specification for argument vectors and verified paths\<close>

text \<open>
  The specification gives each argument vector and the verified path as a fixed sequence
  of optional parts, one per option. The rules below follow its words; they take as a
  parameter the reading of "the option is given": \<open>id\<close> reads every field that is set as
  given, \<open>non_empty\<close> reads a field as given when it holds a non-empty string.
\<close>

definition non_empty :: "string option \<Rightarrow> string option" where
  "non_empty v = (case v of None \<Rightarrow> None | Some s \<Rightarrow> if s = [] then None else Some s)"

definition flag_rule :: "(string option \<Rightarrow> string option) \<Rightarrow> string \<Rightarrow> string option \<Rightarrow> string list" where
  "flag_rule given flag v = (case given v of None \<Rightarrow> [] | Some s \<Rightarrow> [flag, s])"

definition initProject_rule :: "(string option \<Rightarrow> string option) \<Rightarrow> string \<Rightarrow> options \<Rightarrow> string list" where
  "initProject_rule given name opts =
     [''init'', name] @ (if singleSite opts then [''--single-site''] else [])
       @ flag_rule given ''--module'' (module opts) @ flag_rule given ''--site'' (site opts)"

definition addSection_rule :: "(string option \<Rightarrow> string option) \<Rightarrow> string \<Rightarrow> options \<Rightarrow> string list" where
  "addSection_rule given name opts =
     [''add'', ''section'', name] @ flag_rule given ''--page'' (page opts)
       @ flag_rule given ''--site'' (site opts) @ flag_rule given ''--position'' (position opts)"

definition setSection_rule ::
  "(string option \<Rightarrow> string option) \<Rightarrow> string \<Rightarrow> string \<Rightarrow> options \<Rightarrow> string list" where
  "setSection_rule given name content opts =
     [''set'', ''section'', name] @ flag_rule given ''--page'' (page opts)
       @ flag_rule given ''--site'' (site opts) @ flag_rule given ''--locale'' (locale_opt opts)
       @ [''--body'', content]"

definition path_rule :: "(string option \<Rightarrow> string option) \<Rightarrow> string \<Rightarrow> options \<Rightarrow> string" where
  "path_rule given name opts =
     (case given (locale_opt opts) of None \<Rightarrow> [] | Some l \<Rightarrow> ''locales/'' @ l @ ''/'')
       @ (case given (site opts) of None \<Rightarrow> ''pages'' | Some s \<Rightarrow> ''sites/'' @ s @ ''/pages'')
       @ (case given (page opts) of None \<Rightarrow> [] | Some p \<Rightarrow> ''/'' @ p)
       @ ''/'' @ name @ ''.md''"

section \<open>A sandbox and two tools to run the operations on\<close>

definition sandbox_dir :: string where
  "sandbox_dir = ''/tmp/uniweb-test-a1b2''"

definition example_env :: TestEnvironment where
  "example_env = \<lparr> tempDir = Some sandbox_dir, originalCwd = ''/home/dev'' \<rparr>"

definition empty_fs :: fs where
  "empty_fs = (\<lambda>d p. None)"

definition write_file :: "fs \<Rightarrow> string \<Rightarrow> string \<Rightarrow> string \<Rightarrow> fs" where
  "write_file fs0 dir filePath txt = (\<lambda>d p. if d = dir \<and> p = filePath then Some (File txt) else fs0 d p)"

text \<open>
  A tool that exits with code 0 after writing its last argument to one fixed file, a
  tool that exits with code 0 and writes nothing, and a tool whose run is rejected,
  with an exit code or (when it could not be launched) without one.
\<close>

definition writing_tool :: "string \<Rightarrow> execa" where
  "writing_tool filePath = (\<lambda>cwd args fs0.
     (Inr \<lparr> r_stdout = ''ok'', r_stderr = [], r_exitCode = 0 \<rparr>,
      write_file fs0 (case cwd of None \<Rightarrow> [] | Some d \<Rightarrow> d) filePath
        (case rev args of [] \<Rightarrow> [] | a # _ \<Rightarrow> a)))"

definition idle_tool :: execa where
  "idle_tool = (\<lambda>cwd args fs0. (Inr \<lparr> r_stdout = [], r_stderr = [], r_exitCode = 0 \<rparr>, fs0))"

definition failing_tool :: "int option \<Rightarrow> execa" where
  "failing_tool code = (\<lambda>cwd args fs0.
     (Inl \<lparr> e_stdout = None, e_stderr = (if code = None then None else Some ''unknown page''),
            e_exitCode = code, e_message = ''Command failed: uniweb'' \<rparr>, fs0))"

section \<open>A toy sandbox to replay batches on\<close>

text \<open>
  The world is the list of pages that exist. Adding a page appends it (and, when the
  sandbox is strict, throws if the page is already there); adding or setting a section
  throws unless its page exists.
\<close>

definition toy_sandbox :: "bool \<Rightarrow> (string list) sandbox" where
  "toy_sandbox strict =
     \<lparr> sb_addPage = (\<lambda>name opts pages.
          if strict \<and> name \<in> set pages then (Some (AssertionError (''page exists: '' @ name)), pages)
          else (None, pages @ [name])),
       sb_addSection = (\<lambda>name opts pages.
          if page opts \<in> set (map Some pages) then (None, pages)
          else (Some (AssertionError (''no page for section '' @ name)), pages)),
       sb_setSection = (\<lambda>name content opts pages.
          if page opts \<in> set (map Some pages) then (None, pages)
          else (Some (AssertionError (''no page for section '' @ name)), pages)) \<rparr>"

definition about_page :: options where
  "about_page = no_options\<lparr> page := Some ''about'' \<rparr>"

definition site_plan :: "batch_decl list" where
  "site_plan = [DeclAddPage ''about'' no_options, DeclAddSection ''hero'' about_page,
                DeclSetSection ''hero'' ''# About Me'' about_page]"

definition clashing_plan :: "batch_decl list" where
  "clashing_plan = [DeclAddPage ''about'' no_options, DeclAddPage ''about'' no_options,
                    DeclAddSection ''hero'' about_page]"

section \<open>A process to tear down and two operations to time\<close>

text \<open>
  A process that has changed into a project below the sandbox directory; \<open>held\<close> lists
  the paths the system refuses to remove. The timed operations take 40 milliseconds of
  the clock and then throw, or return.
\<close>

definition running_process :: "string list \<Rightarrow> process" where
  "running_process held =
     \<lparr> cwd = sandbox_dir @ ''/shop'',
       dirs = [''/home/dev'', sandbox_dir, sandbox_dir @ ''/shop'', sandbox_dir @ ''/shop/pages''],
       busy = held,
       console = [] \<rparr>"

definition slow_failure :: "PerformanceHelper \<times> int \<Rightarrow> (js_error + unit) \<times> PerformanceHelper \<times> int" where
  "slow_failure = (\<lambda>(h, clock). (Inl (AssertionError ''tool failed''), h, clock + 40))"

definition slow_success :: "PerformanceHelper \<times> int \<Rightarrow> (js_error + string) \<times> PerformanceHelper \<times> int" where
  "slow_success = (\<lambda>(h, clock). (Inr ''done'', h, clock + 40))"

section \<open>Paths that stay on the data\<close>

text \<open>
  \<open>own_keys_only\<close>: no key of the path names a member that a data value inherits from a
  built-in prototype. \<open>parses_data\<close>: the parser returns data only. A page manifest and
  a parser that knows its text serve as the example.
\<close>

definition own_keys_only :: "builtins \<Rightarrow> string list \<Rightarrow> bool" where
  "own_keys_only inherited keys = (\<forall>v. yaml_value v \<longrightarrow> (\<forall>k\<in>set keys. inherited v k = None))"

definition parses_data :: "(string \<Rightarrow> js_error + jsval) \<Rightarrow> bool" where
  "parses_data yaml_parse = (\<forall>txt doc. yaml_parse txt = Inr doc \<longrightarrow> yaml_value doc)"

definition page_manifest :: jsval where
  "page_manifest = JObj [(''title'', JNull), (''sections'', JArr [JStr ''hero'', JStr ''intro''])]"

definition manifest_parser :: "string \<Rightarrow> js_error + jsval" where
  "manifest_parser txt =
     (if txt = ''sections: [hero, intro]'' then Inr page_manifest
      else Inl (SystemError ''YAMLParseError''))"

section \<open>The rendering the specification gives for a built document\<close>

text \<open>
  The writes a sequence of builder calls makes to the front matter, in call order (an
  assignment to \<^verbatim>\<open>__proto__\<close> writes nothing); the order in which keys were first
  inserted; and the front-matter block: nothing for no entries, else the delimited block
  of the \<^verbatim>\<open>key: value\<close> lines followed by a blank line.
\<close>

fun fm_write :: "'v builder_call \<Rightarrow> (string \<times> 'v) list" where
  "fm_write (Component name) = [(''component'', name)]"
| "fm_write (Param key v) = (if key = ''__proto__'' then [] else [(key, v)])"
| "fm_write c = []"

definition fm_writes :: "'v builder_call list \<Rightarrow> (string \<times> 'v) list" where
  "fm_writes cs = concat (map fm_write cs)"

definition insertion_order :: "string list \<Rightarrow> string list" where
  "insertion_order ks = rev (remdups (rev ks))"

definition front_matter_block :: "('v \<Rightarrow> string) \<Rightarrow> (string \<times> 'v) list \<Rightarrow> string" where
  "front_matter_block to_str entries =
     (case entries of
        [] \<Rightarrow> []
      | e # es \<Rightarrow> ''---'' @ [newline]
                  @ join [newline] (map (\<lambda>(k, v). k @ '': '' @ to_str v) entries)
                  @ [newline] @ ''---'' @ [newline, newline])"

definition hero_calls :: "string builder_call list" where
  "hero_calls = [Component ''Hero'', Param ''layout'' ''centered'', Title ''Welcome'',
                 Paragraph ''Bio'', Param ''layout'' ''split'']"

definition numbered_calls :: "string builder_call list" where
  "numbered_calls = [Param ''b'' ''x'', Param ''1'' ''y'']"

chapter \<open>Properties\<close>

section \<open>Running the tool\<close>

text \<open>
  Claim C1. For every argument list, \<open>runUniweb\<close> never raises: it returns a record (the
  \<open>Inr\<close> branch) and passes the file system on as the tool left it. Under the default
  contract of \<^verbatim>\<open>execa\<close> (\<open>rejects_nonzero\<close>), \<open>success\<close> is true exactly when the process
  exited with code 0. A resolved run is copied into the record with no \<open>error\<close>. A
  rejected run (a non-zero exit or a launch failure) gives \<open>success = False\<close>, the
  message of the rejection in \<open>error\<close>, the captured standard error or the empty string
  in \<open>stderr\<close>, and the exit code, or 1 when there is none, in \<open>exitCode\<close>.
\<close>

theorem runUniweb_uniform_result:
  "\<exists>r. runUniweb ex this args fsa = (Inr r, snd (ex (tempDir this) args fsa)) \<and>
     (rejects_nonzero (fst (ex (tempDir this) args fsa)) \<longrightarrow>
        (success r \<longleftrightarrow> exit_status (fst (ex (tempDir this) args fsa)) = Some 0)) \<and>
     (\<forall>res. fst (ex (tempDir this) args fsa) = Inr res \<longrightarrow>
        success r \<and> stdout r = r_stdout res \<and> stderr r = r_stderr res
        \<and> exitCode r = r_exitCode res \<and> error r = None) \<and>
     (\<forall>err. fst (ex (tempDir this) args fsa) = Inl err \<longrightarrow>
        \<not> success r \<and> error r = Some (e_message err)
        \<and> stderr r = (case e_stderr err of None \<Rightarrow> [] | Some s \<Rightarrow> s)
        \<and> (rejects_nonzero (Inl err) \<longrightarrow>
              exitCode r = (case e_exitCode err of None \<Rightarrow> 1 | Some c \<Rightarrow> c)))"
  by (cases "ex (tempDir this) args fsa")
     (auto simp: runUniweb_def rejects_nonzero_def exit_status_def or_else_def or_else_num_def
           split: sum.splits option.splits)

text \<open>A run that exits with code 2 and a run that cannot be launched.\<close>

theorem runUniweb_uniform_result_witness:
  "rejects_nonzero (fst (failing_tool (Some 2) (tempDir example_env) [''add'', ''page'', ''x''] empty_fs))
   \<and> rejects_nonzero (fst (failing_tool None (tempDir example_env) [''add'', ''page'', ''x''] empty_fs))
   \<and> (\<exists>r. runUniweb (failing_tool (Some 2)) example_env [''add'', ''page'', ''x''] empty_fs = (Inr r, empty_fs)
          \<and> \<not> success r \<and> exitCode r = 2 \<and> stderr r = ''unknown page''
          \<and> error r = Some ''Command failed: uniweb'')
   \<and> (\<exists>r. runUniweb (failing_tool None) example_env [''add'', ''page'', ''x''] empty_fs = (Inr r, empty_fs)
          \<and> \<not> success r \<and> exitCode r = 1 \<and> stderr r = []
          \<and> error r = Some ''Command failed: uniweb'')"
  using runUniweb_uniform_result [of "failing_tool (Some 2)" example_env "[''add'', ''page'', ''x'']" empty_fs]
    runUniweb_uniform_result [of "failing_tool None" example_env "[''add'', ''page'', ''x'']" empty_fs]
  by (auto simp: failing_tool_def rejects_nonzero_def)

section \<open>Argument vectors\<close>

lemma push_flag:
  "(if truthy v then push args [flag, the v] else args) = args @ flag_rule non_empty flag v"
  by (simp add: truthy_def push_def flag_rule_def non_empty_def split: option.splits)

text \<open>
  Claim C2, as the code has it. Each argument vector is a function of the name and the
  options alone and has the fixed order of the specification, where an option
  contributes its flag pair when it holds a non-empty string: \<open>initProject\<close> gives
  \<^verbatim>\<open>init\<close>, the name, \<^verbatim>\<open>--single-site\<close> if set, then the \<^verbatim>\<open>--module\<close> and \<^verbatim>\<open>--site\<close>
  pairs; \<open>addSection\<close> gives \<^verbatim>\<open>add section\<close>, the name, then the \<^verbatim>\<open>--page\<close>, \<^verbatim>\<open>--site\<close>
  and \<^verbatim>\<open>--position\<close> pairs; \<open>setSection\<close> gives \<^verbatim>\<open>set section\<close>, the name, then the
  \<^verbatim>\<open>--page\<close>, \<^verbatim>\<open>--site\<close> and \<^verbatim>\<open>--locale\<close> pairs, and always ends with \<^verbatim>\<open>--body\<close> and
  the content.
\<close>

theorem argv_translation:
  "initProject_args name opts = initProject_rule non_empty name opts
   \<and> addSection_args name opts = addSection_rule non_empty name opts
   \<and> setSection_args name content opts = setSection_rule non_empty name content opts"
  unfolding initProject_args_def addSection_args_def setSection_args_def Let_def push_flag
    initProject_rule_def addSection_rule_def setSection_rule_def
  by (simp add: push_def)

theorem argv_translation_witness:
  "initProject_args ''shop'' (no_options\<lparr> singleSite := True, module := Some ''m'', site := Some ''main'' \<rparr>)
     = [''init'', ''shop'', ''--single-site'', ''--module'', ''m'', ''--site'', ''main'']
   \<and> addSection_args ''hero'' (no_options\<lparr> page := Some ''about'', position := Some ''under:intro'' \<rparr>)
     = [''add'', ''section'', ''hero'', ''--page'', ''about'', ''--position'', ''under:intro'']
   \<and> setSection_args ''hero'' ''# Hi'' (no_options\<lparr> page := Some ''about'', locale_opt := Some ''fr'' \<rparr>)
     = [''set'', ''section'', ''hero'', ''--page'', ''about'', ''--locale'', ''fr'', ''--body'', ''# Hi'']"
  using argv_translation [of "''shop''" "no_options\<lparr> singleSite := True, module := Some ''m'', site := Some ''main'' \<rparr>" "[]"]
    argv_translation [of "''hero''" "no_options\<lparr> page := Some ''about'', position := Some ''under:intro'' \<rparr>" "[]"]
    argv_translation [of "''hero''" "no_options\<lparr> page := Some ''about'', locale_opt := Some ''fr'' \<rparr>" "''# Hi''"]
  by (simp add: initProject_rule_def addSection_rule_def setSection_rule_def flag_rule_def
        non_empty_def no_options_def)

text \<open>
  Claim C2 as stated reads "if present": an option that is set contributes its pair.
  With \<^verbatim>\<open>{module: ""}\<close> the option is present, the stated vector has the pair
  \<^verbatim>\<open>--module\<close>, \<^verbatim>\<open>""\<close>, and the code leaves it out.
\<close>

theorem argv_empty_option_counterexample:
  "initProject_args ''p'' (no_options\<lparr> module := Some [] \<rparr>) = [''init'', ''p'']
   \<and> initProject_rule id ''p'' (no_options\<lparr> module := Some [] \<rparr>) = [''init'', ''p'', ''--module'', []]
   \<and> initProject_args ''p'' (no_options\<lparr> module := Some [] \<rparr>)
       \<noteq> initProject_rule id ''p'' (no_options\<lparr> module := Some [] \<rparr>)"
  by (simp add: initProject_args_def initProject_rule_def flag_rule_def no_options_def truthy_def push_def)

section \<open>The verification of \<open>setSection\<close>\<close>

lemma split_not_Nil: "split c s \<noteq> []"
  by (induction s) (auto split: list.splits)

lemma split_first: "first_elem (split c s) = Some (takeWhile (\<lambda>x. x \<noteq> c) s)"
  by (induction s) (auto simp: first_elem_def split: list.splits)

lemma first_line_takeWhile: "first_line content = Some (takeWhile (\<lambda>x. x \<noteq> newline) content)"
  by (simp add: first_line_def split_first)

lemma first_line_empty_iff:
  "first_line content = Some [] \<longleftrightarrow> content = [] \<or> (\<exists>rest. content = newline # rest)"
  by (cases content) (auto simp: first_line_takeWhile)

lemma starts_with_Nil: "starts_with s []"
  by (cases s) simp_all

lemma str_includes_Nil: "str_includes s []"
  by (cases s) (simp_all add: starts_with_Nil)

lemma expectFileContains_iff:
  assumes "tempDir this = Some d"
  shows "expectFileContains this fsa filePath content message = Inr ()
         \<longleftrightarrow> (\<exists>txt. fsa d filePath = Some (File txt) \<and> str_includes txt content)"
  using assms
  by (auto simp: expectFileContains_def expectFileExists_def fileExists_def readFile_def
           split: sum.splits option.splits entry.splits if_splits)

lemma expectCommandSuccess_cases:
  "ex (tempDir this) args fsa = (Inr res, fsb) \<Longrightarrow>
     \<exists>r. expectCommandSuccess ex this args message fsa = (Inr r, fsb)"
  "ex (tempDir this) args fsa = (Inl err, fsb) \<Longrightarrow>
     \<exists>e. expectCommandSuccess ex this args message fsa = (Inl e, fsb)"
  by (simp_all add: expectCommandSuccess_def runUniweb_def)

lemma setSection_filePath_rule: "setSection_filePath name opts = path_rule non_empty name opts"
  by (simp add: setSection_filePath_def path_rule_def non_empty_def truthy_def Let_def
           split: option.splits)

lemma setSection_result:
  assumes "tempDir this = Some d"
    and "ex (Some d) (setSection_args name content opts) fsa = (awaited, fsb)"
  shows "setSection ex this name content opts fsa = (Inr this, fsb)
         \<longleftrightarrow> (\<exists>res. awaited = Inr res) \<and>
             (\<exists>txt. fsb d (setSection_filePath name opts) = Some (File txt)
                    \<and> str_includes txt (takeWhile (\<lambda>c. c \<noteq> newline) content))"
proof (cases awaited)
  case (Inl err)
  with assms expectCommandSuccess_cases(2) [of ex this "setSection_args name content opts" fsa err fsb None]
  show ?thesis by (auto simp: setSection_def)
next
  case (Inr res)
  with assms expectCommandSuccess_cases(1) [of ex this "setSection_args name content opts" fsa res fsb None]
  obtain r where "expectCommandSuccess ex this (setSection_args name content opts) None fsa = (Inr r, fsb)"
    by auto
  then show ?thesis
    using Inr expectFileContains_iff [OF assms(1), of fsb "setSection_filePath name opts"
        "takeWhile (\<lambda>c. c \<noteq> newline) content" None]
    by (cases "expectFileContains this fsb (setSection_filePath name opts)
                 (takeWhile (\<lambda>c. c \<noteq> newline) content) None")
       (auto simp: setSection_def first_line_takeWhile)
qed

text \<open>
  Claim C3, as the code has it. The path that \<open>setSection\<close> verifies is the one the
  specification gives, where an option counts as given when it holds a non-empty string:
  \<^verbatim>\<open>pages\<close>, or \<^verbatim>\<open>sites/<site>/pages\<close> with a site, then \<^verbatim>\<open>/<page>\<close> with a page, then
  \<^verbatim>\<open>/<name>.md\<close>, the whole prefixed with \<^verbatim>\<open>locales/<locale>/\<close> with a locale. In a sandbox
  that has been set up, the operation returns the sandbox exactly when the tool run
  resolved and the file at that path exists and contains the first line of the content.
\<close>

theorem setSection_verification:
  "setSection_filePath name opts = path_rule non_empty name opts \<and>
   first_line content = Some (takeWhile (\<lambda>c. c \<noteq> newline) content) \<and>
   (tempDir this = Some d \<longrightarrow>
      (fst (setSection ex this name content opts fsa) = Inr this
       \<longleftrightarrow> (\<exists>res fsb txt.
              ex (Some d) (setSection_args name content opts) fsa = (Inr res, fsb)
              \<and> fsb d (path_rule non_empty name opts) = Some (File txt)
              \<and> str_includes txt (takeWhile (\<lambda>c. c \<noteq> newline) content))))"
proof (intro conjI impI)
  show "setSection_filePath name opts = path_rule non_empty name opts"
    by (rule setSection_filePath_rule)
next
  show "first_line content = Some (takeWhile (\<lambda>c. c \<noteq> newline) content)"
    by (rule first_line_takeWhile)
next
  assume assms: "tempDir this = Some d"
  obtain awaited fsb where ex: "ex (Some d) (setSection_args name content opts) fsa = (awaited, fsb)"
    by (cases "ex (Some d) (setSection_args name content opts) fsa")
  have snd_eq: "snd (setSection ex this name content opts fsa) = fsb"
    using ex assms
    by (cases awaited)
       (auto simp: setSection_def expectCommandSuccess_def runUniweb_def
             split: sum.splits option.splits prod.splits if_splits)
  have "fst (setSection ex this name content opts fsa) = Inr this
        \<longleftrightarrow> setSection ex this name content opts fsa = (Inr this, fsb)"
    using snd_eq by (cases "setSection ex this name content opts fsa") auto
  then show "fst (setSection ex this name content opts fsa) = Inr this
       \<longleftrightarrow> (\<exists>res fsb txt.
              ex (Some d) (setSection_args name content opts) fsa = (Inr res, fsb)
              \<and> fsb d (path_rule non_empty name opts) = Some (File txt)
              \<and> str_includes txt (takeWhile (\<lambda>c. c \<noteq> newline) content))"
    using setSection_result [of this d ex name content opts fsa awaited fsb, OF assms ex] ex
    by (auto simp: setSection_filePath_rule)
qed

theorem setSection_verification_witness:
  "tempDir example_env = Some sandbox_dir
   \<and> setSection_filePath ''hero'' (no_options\<lparr> page := Some ''about'', site := Some ''main'', locale_opt := Some ''fr'' \<rparr>)
       = ''locales/fr/sites/main/pages/about/hero.md''
   \<and> first_line (''# About Me'' @ [newline, newline] @ ''Bio text'') = Some ''# About Me''
   \<and> fst (setSection (writing_tool ''locales/fr/sites/main/pages/about/hero.md'') example_env ''hero''
             (''# About Me'' @ [newline, newline] @ ''Bio text'')
             (no_options\<lparr> page := Some ''about'', site := Some ''main'', locale_opt := Some ''fr'' \<rparr>) empty_fs)
       = Inr example_env"
proof -
  have t: "tempDir example_env = Some sandbox_dir"
    by (simp add: example_env_def)
  have p: "path_rule non_empty ''hero'' (no_options\<lparr> page := Some ''about'', site := Some ''main'', locale_opt := Some ''fr'' \<rparr>)
             = ''locales/fr/sites/main/pages/about/hero.md''"
    by (simp add: path_rule_def non_empty_def no_options_def)
  show ?thesis
    using setSection_verification [of "''hero''"
        "no_options\<lparr> page := Some ''about'', site := Some ''main'', locale_opt := Some ''fr'' \<rparr>"
        "''# About Me'' @ [newline, newline] @ ''Bio text''"
        example_env sandbox_dir
        "writing_tool ''locales/fr/sites/main/pages/about/hero.md''" empty_fs] t
    unfolding p
    by (simp add: writing_tool_def write_file_def setSection_args_def push_def Let_def truthy_def
          no_options_def newline_def)
qed

text \<open>
  Claim C3 as stated gives \<^verbatim>\<open>sites/<site>/pages\<close> whenever a site option is given. With
  \<^verbatim>\<open>{site: ""}\<close> the stated path is \<^verbatim>\<open>sites//pages/hero.md\<close>; the code verifies
  \<^verbatim>\<open>pages/hero.md\<close>.
\<close>

theorem setSection_path_counterexample:
  "setSection_filePath ''hero'' (no_options\<lparr> site := Some [] \<rparr>) = ''pages/hero.md''
   \<and> path_rule id ''hero'' (no_options\<lparr> site := Some [] \<rparr>) = ''sites//pages/hero.md''
   \<and> setSection_filePath ''hero'' (no_options\<lparr> site := Some [] \<rparr>)
       \<noteq> path_rule id ''hero'' (no_options\<lparr> site := Some [] \<rparr>)"
  by (simp add: setSection_filePath_def path_rule_def no_options_def truthy_def)

text \<open>
  Claim C10. When the content is empty or begins with a newline, its first line is the
  empty string, the check that the target file contains it passes for every existing
  file, whatever the file holds, and \<open>setSection\<close> returns the sandbox as soon as the tool
  run resolved and the file exists.
\<close>

theorem setSection_empty_first_line:
  assumes "content = [] \<or> (\<exists>rest. content = newline # rest)"
    and "tempDir this = Some d"
    and "ex (Some d) (setSection_args name content opts) fsa = (Inr res, fsb)"
    and "fsb d (setSection_filePath name opts) = Some (File txt)"
  shows "first_line content = Some []
         \<and> expectFileContains this fsb (setSection_filePath name opts) [] None = Inr ()
         \<and> setSection ex this name content opts fsa = (Inr this, fsb)"
proof -
  have fl: "first_line content = Some []"
    using assms(1) by (simp add: first_line_empty_iff)
  then have tw: "takeWhile (\<lambda>c. c \<noteq> newline) content = []"
    by (simp add: first_line_takeWhile)
  have "expectFileContains this fsb (setSection_filePath name opts) [] None = Inr ()"
    using assms(4) by (simp add: expectFileContains_iff [OF assms(2)] str_includes_Nil)
  moreover have "setSection ex this name content opts fsa = (Inr this, fsb)"
    using setSection_result [where this = this and d = d and ex = ex and name = name
        and content = content and opts = opts and fsa = fsa and awaited = "Inr res" and fsb = fsb]
      assms(2,3,4) tw
    by (simp add: str_includes_Nil)
  ultimately show ?thesis using fl by simp
qed

text \<open>The file holds text that has nothing to do with the content, and the check passes.\<close>

theorem setSection_empty_first_line_witness:
  "([newline] @ ''# Title'' = [] \<or> (\<exists>rest. [newline] @ ''# Title'' = newline # rest))
   \<and> tempDir example_env = Some sandbox_dir
   \<and> setSection idle_tool example_env ''hero'' ([newline] @ ''# Title'') no_options
        (write_file empty_fs sandbox_dir ''pages/hero.md'' ''unrelated text'')
       = (Inr example_env, write_file empty_fs sandbox_dir ''pages/hero.md'' ''unrelated text'')"
proof -
  have a: "[newline] @ ''# Title'' = [] \<or> (\<exists>rest. [newline] @ ''# Title'' = newline # rest)"
    by simp
  have t: "tempDir example_env = Some sandbox_dir"
    by (simp add: example_env_def)
  have f: "write_file empty_fs sandbox_dir ''pages/hero.md'' ''unrelated text'' sandbox_dir
             (setSection_filePath ''hero'' no_options) = Some (File ''unrelated text'')"
    by (simp add: write_file_def setSection_filePath_def no_options_def truthy_def)
  have e: "idle_tool (Some sandbox_dir) (setSection_args ''hero'' ([newline] @ ''# Title'') no_options)
             (write_file empty_fs sandbox_dir ''pages/hero.md'' ''unrelated text'')
           = (Inr \<lparr> r_stdout = [], r_stderr = [], r_exitCode = 0 \<rparr>,
              write_file empty_fs sandbox_dir ''pages/hero.md'' ''unrelated text'')"
    by (simp add: idle_tool_def)
  show ?thesis
    using setSection_empty_first_line [of "[newline] @ ''# Title''" example_env sandbox_dir
        idle_tool "''hero''" no_options
        "write_file empty_fs sandbox_dir ''pages/hero.md'' ''unrelated text''"
        "\<lparr> r_stdout = [], r_stderr = [], r_exitCode = 0 \<rparr>"
        "write_file empty_fs sandbox_dir ''pages/hero.md'' ''unrelated text''"
        "''unrelated text''"] a t f e
    by simp
qed

section \<open>The batch queue\<close>

lemma enqueue_appends: "enqueue b d = b\<lparr> operations := operations b @ [record_of d] \<rparr>"
  by (cases d) (simp_all add: batch_addPage_def batch_addSection_def batch_setSection_def push_def)

lemma enqueue_all:
  "foldl enqueue b ds = b\<lparr> operations := operations b @ map record_of ds \<rparr>"
  by (induction ds arbitrary: b) (simp_all add: enqueue_appends)

lemma dispatch_logged:
  "dispatch (logged sb) (record_of d) (w, calls) =
     (case run_call sb (call_of d) w of (r, w1) \<Rightarrow> (r, (w1, calls @ [call_of d])))"
  by (cases d) (simp_all add: dispatch_def logged_def)

lemma execute_loop_logged:
  assumes "execute_loop (logged sb) (map record_of ds) (w, calls) = (r, (w', calls'))"
  shows "\<exists>k\<le>length ds. calls' = calls @ map call_of (take k ds)
           \<and> (r = None \<longrightarrow> k = length ds \<and> all_succeed sb (map call_of ds) w = Some w')
           \<and> (\<forall>e. r = Some e \<longrightarrow> 0 < k
                 \<and> (\<exists>wp. all_succeed sb (map call_of (take (k - 1) ds)) w = Some wp
                          \<and> run_call sb (call_of (ds ! (k - 1))) wp = (Some e, w')))"
  using assms
proof (induction ds arbitrary: w calls)
  case Nil
  then show ?case by simp
next
  case (Cons d ds)
  obtain r0 w0 where step: "run_call sb (call_of d) w = (r0, w0)"
    by (cases "run_call sb (call_of d) w")
  show ?case
  proof (cases r0)
    case (Some e)
    with step Cons.prems have "r = Some e" "w' = w0" "calls' = calls @ [call_of d]"
      by (simp_all add: dispatch_logged)
    with step Some show ?thesis
      by (intro exI [of _ 1]) simp
  next
    case None
    with step Cons.prems
    have "execute_loop (logged sb) (map record_of ds) (w0, calls @ [call_of d]) = (r, (w', calls'))"
      by (simp add: dispatch_logged)
    from Cons.IH [OF this] obtain k where k: "k \<le> length ds"
      "calls' = (calls @ [call_of d]) @ map call_of (take k ds)"
      "r = None \<longrightarrow> k = length ds \<and> all_succeed sb (map call_of ds) w0 = Some w'"
      "\<forall>e. r = Some e \<longrightarrow> 0 < k
          \<and> (\<exists>wp. all_succeed sb (map call_of (take (k - 1) ds)) w0 = Some wp
                   \<and> run_call sb (call_of (ds ! (k - 1))) wp = (Some e, w'))"
      by blast
    have "\<forall>e. r = Some e \<longrightarrow> 0 < Suc k
          \<and> (\<exists>wp. all_succeed sb (map call_of (take (Suc k - 1) (d # ds))) w = Some wp
                   \<and> run_call sb (call_of ((d # ds) ! (Suc k - 1))) wp = (Some e, w'))"
    proof (intro allI impI)
      fix e assume "r = Some e"
      with k(4) obtain wp where "0 < k"
        "all_succeed sb (map call_of (take (k - 1) ds)) w0 = Some wp"
        "run_call sb (call_of (ds ! (k - 1))) wp = (Some e, w')"
        by blast
      then show "0 < Suc k
          \<and> (\<exists>wp. all_succeed sb (map call_of (take (Suc k - 1) (d # ds))) w = Some wp
                   \<and> run_call sb (call_of ((d # ds) ! (Suc k - 1))) wp = (Some e, w'))"
        using step None by (cases k) auto
    qed
    with k(1,2,3) step None show ?thesis
      by (intro exI [of _ "Suc k"]) simp
  qed
qed

lemma execute_returns_batch: "fst (snd (execute b w)) = b"
  by (simp add: execute_def split: prod.splits option.splits)

lemma execute_result_cases:
  "execute b w = (res, b', w') \<Longrightarrow>
     b' = b \<and> (case execute_loop (env b) (operations b) w of
                 (None, w1) \<Rightarrow> res = Inr (env b) \<and> w' = w1
               | (Some e, w1) \<Rightarrow> res = Inl e \<and> w' = w1)"
  by (auto simp: execute_def split: prod.splits option.splits)

text \<open>
  Claim C4. On a batch built by any sequence of \<open>addPage\<close>, \<open>addSection\<close> and
  \<open>setSection\<close> calls, each call appends exactly one record to the queue and returns the
  batch, with its sandbox untouched. \<open>execute\<close> then reaches the sandbox methods in
  insertion order: the calls it makes are the first \<open>k\<close> queued ones, with nothing
  skipped or reordered. It resolves to the sandbox when all of them succeed, and then
  \<open>k\<close> is the length of the queue; otherwise it propagates the exception of the
  \<open>k\<close>-th call, the first one that throws, and the calls after it are never made.
\<close>

theorem batch_queue_replay:
  assumes "b = foldl enqueue (BatchOperations_new (logged sb)) ds"
    and "execute b (w, []) = (res, b', (w', calls))"
  shows "operations b = map record_of ds \<and> env b = logged sb
     \<and> (\<forall>d. enqueue b d = b\<lparr> operations := operations b @ [record_of d] \<rparr>)
     \<and> (res = Inr (env b) \<or> (\<exists>e. res = Inl e))
     \<and> (\<exists>k\<le>length ds. calls = map call_of (take k ds)
          \<and> (res = Inr (env b) \<longrightarrow> k = length ds \<and> all_succeed sb (map call_of ds) w = Some w')
          \<and> (\<forall>e. res = Inl e \<longrightarrow> 0 < k
                \<and> (\<exists>wp. all_succeed sb (map call_of (take (k - 1) ds)) w = Some wp
                         \<and> run_call sb (call_of (ds ! (k - 1))) wp = (Some e, w'))))"
proof -
  have ops: "operations b = map record_of ds" and env: "env b = logged sb"
    using assms(1) by (simp_all add: enqueue_all BatchOperations_new_def)
  obtain r where loop: "execute_loop (logged sb) (map record_of ds) (w, []) = (r, (w', calls))"
    and res: "r = None \<longrightarrow> res = Inr (env b)" "\<forall>e. r = Some e \<longrightarrow> res = Inl e"
    using execute_result_cases [OF assms(2)] ops env
    by (cases "execute_loop (logged sb) (map record_of ds) (w, [])") (auto split: option.splits)
  from execute_loop_logged [OF loop] obtain k where k: "k \<le> length ds"
    "calls = map call_of (take k ds)"
    "r = None \<longrightarrow> k = length ds \<and> all_succeed sb (map call_of ds) w = Some w'"
    "\<forall>e. r = Some e \<longrightarrow> 0 < k
        \<and> (\<exists>wp. all_succeed sb (map call_of (take (k - 1) ds)) w = Some wp
                 \<and> run_call sb (call_of (ds ! (k - 1))) wp = (Some e, w'))"
    by auto
  have "res = Inr (env b) \<or> (\<exists>e. res = Inl e)"
    using res by (cases r) auto
  moreover have "res = Inr (env b) \<longrightarrow> k = length ds \<and> all_succeed sb (map call_of ds) w = Some w'"
    using res k(3) by (cases r) auto
  moreover have "\<forall>e. res = Inl e \<longrightarrow> 0 < k
        \<and> (\<exists>wp. all_succeed sb (map call_of (take (k - 1) ds)) w = Some wp
                 \<and> run_call sb (call_of (ds ! (k - 1))) wp = (Some e, w'))"
    using res k(4) by (cases r) auto
  ultimately show ?thesis
    using ops env k(1,2) by (auto simp: enqueue_appends)
qed

lemmas batch_eval = execute_def BatchOperations_new_def batch_addPage_def batch_addSection_def
  batch_setSection_def push_def dispatch_def logged_def toy_sandbox_def about_page_def no_options_def

lemma clashing_plan_run:
  "execute (foldl enqueue (BatchOperations_new (logged (toy_sandbox True))) clashing_plan) ([], [])
     = (Inl (AssertionError ''page exists: about''),
        foldl enqueue (BatchOperations_new (logged (toy_sandbox True))) clashing_plan,
        ([''about''], [AddPage ''about'' no_options, AddPage ''about'' no_options]))"
  by (simp add: batch_eval clashing_plan_def)

text \<open>The second call of the plan throws; the third is never made.\<close>

theorem batch_queue_replay_witness:
  "execute (foldl enqueue (BatchOperations_new (logged (toy_sandbox True))) clashing_plan) ([], [])
     = (Inl (AssertionError ''page exists: about''),
        foldl enqueue (BatchOperations_new (logged (toy_sandbox True))) clashing_plan,
        ([''about''], [AddPage ''about'' no_options, AddPage ''about'' no_options]))
   \<and> operations (foldl enqueue (BatchOperations_new (logged (toy_sandbox True))) clashing_plan)
       = map record_of clashing_plan
   \<and> (\<exists>k\<le>length clashing_plan.
         [AddPage ''about'' no_options, AddPage ''about'' no_options] = map call_of (take k clashing_plan)
         \<and> 0 < k
         \<and> (\<exists>wp. all_succeed (toy_sandbox True) (map call_of (take (k - 1) clashing_plan)) [] = Some wp
                  \<and> run_call (toy_sandbox True) (call_of (clashing_plan ! (k - 1))) wp
                      = (Some (AssertionError ''page exists: about''), [''about''])))"
  using batch_queue_replay [OF refl clashing_plan_run] clashing_plan_run
  by auto

text \<open>
  Claim C9, as the code has it. \<open>execute\<close> leaves every batch as it found it. For a
  batch built by \<open>addPage\<close>, \<open>addSection\<close> and \<open>setSection\<close> calls: after a run that
  resolves, the queue still holds every record in its original order, and a second
  \<open>execute\<close> on the same batch walks the same queue under the same fail-fast rule. The
  calls it makes are the first \<open>k\<close> calls of the first run, in the same order: all of
  them when the second run resolves too, and otherwise those up to and including the
  first call that throws this time, whose exception the second run propagates.
\<close>

theorem execute_keeps_queue:
  assumes "b = foldl enqueue (BatchOperations_new (logged sb)) ds"
    and "execute b (w, []) = (Inr s, b1, (w1, calls1))"
    and "execute b1 (w1, []) = (res2, b2, (w2, calls2))"
  shows "fst (snd (execute q v)) = q
         \<and> b1 = b \<and> b2 = b \<and> operations b2 = map record_of ds
         \<and> calls1 = map call_of ds
         \<and> (\<exists>k\<le>length ds. calls2 = take k calls1
              \<and> ((\<exists>s2. res2 = Inr s2) \<longrightarrow> k = length ds \<and> calls2 = calls1)
              \<and> (\<forall>e. res2 = Inl e \<longrightarrow> 0 < k
                    \<and> (\<exists>wp. all_succeed sb (map call_of (take (k - 1) ds)) w1 = Some wp
                             \<and> run_call sb (call_of (ds ! (k - 1))) wp = (Some e, w2))))"
proof -
  have b1: "b1 = b"
    using execute_returns_batch [of b "(w, [])"] assms(2) by simp
  have b2: "b2 = b"
    using execute_returns_batch [of b1 "(w1, [])"] assms(3) b1 by simp
  have ops: "operations b = map record_of ds" and env: "env b = logged sb"
    using assms(1) by (simp_all add: enqueue_all BatchOperations_new_def)
  have loop1: "execute_loop (logged sb) (map record_of ds) (w, []) = (None, (w1, calls1))"
    using execute_result_cases [OF assms(2)] ops env
    by (cases "execute_loop (logged sb) (map record_of ds) (w, [])") (auto split: option.splits)
  have c1: "calls1 = map call_of ds"
    using execute_loop_logged [OF loop1] by auto
  obtain r where loop2: "execute_loop (logged sb) (map record_of ds) (w1, []) = (r, (w2, calls2))"
    and res: "r = None \<longrightarrow> res2 = Inr (env b)" "\<forall>e. r = Some e \<longrightarrow> res2 = Inl e"
    using execute_result_cases [OF assms(3)] ops env b1
    by (cases "execute_loop (logged sb) (map record_of ds) (w1, [])") (auto split: option.splits)
  from execute_loop_logged [OF loop2] obtain k where k: "k \<le> length ds"
    "calls2 = map call_of (take k ds)" "r = None \<longrightarrow> k = length ds"
    "\<forall>e. r = Some e \<longrightarrow> 0 < k
        \<and> (\<exists>wp. all_succeed sb (map call_of (take (k - 1) ds)) w1 = Some wp
                 \<and> run_call sb (call_of (ds ! (k - 1))) wp = (Some e, w2))"
    by auto
  have prefix: "calls2 = take k calls1"
    using k(2) c1 by (simp add: take_map)
  have all: "(\<exists>s2. res2 = Inr s2) \<longrightarrow> k = length ds \<and> calls2 = calls1"
    using res k(2,3) c1 by (cases r) auto
  have fail: "\<forall>e. res2 = Inl e \<longrightarrow> 0 < k
        \<and> (\<exists>wp. all_succeed sb (map call_of (take (k - 1) ds)) w1 = Some wp
                 \<and> run_call sb (call_of (ds ! (k - 1))) wp = (Some e, w2))"
    using res k(4) by (cases r) auto
  have "\<exists>k\<le>length ds. calls2 = take k calls1
          \<and> ((\<exists>s2. res2 = Inr s2) \<longrightarrow> k = length ds \<and> calls2 = calls1)
          \<and> (\<forall>e. res2 = Inl e \<longrightarrow> 0 < k
                \<and> (\<exists>wp. all_succeed sb (map call_of (take (k - 1) ds)) w1 = Some wp
                         \<and> run_call sb (call_of (ds ! (k - 1))) wp = (Some e, w2)))"
    using k(1) prefix all fail by blast
  then show ?thesis
    using b1 b2 ops c1 execute_returns_batch [of q v] by simp
qed

text \<open>Two runs of the same batch on a sandbox that accepts a page twice.\<close>

theorem execute_keeps_queue_witness:
  "execute (foldl enqueue (BatchOperations_new (logged (toy_sandbox False))) site_plan) ([], [])
     = (Inr (logged (toy_sandbox False)),
        foldl enqueue (BatchOperations_new (logged (toy_sandbox False))) site_plan,
        ([''about''], map call_of site_plan))
   \<and> execute (foldl enqueue (BatchOperations_new (logged (toy_sandbox False))) site_plan) ([''about''], [])
     = (Inr (logged (toy_sandbox False)),
        foldl enqueue (BatchOperations_new (logged (toy_sandbox False))) site_plan,
        ([''about'', ''about''], map call_of site_plan))
   \<and> operations (foldl enqueue (BatchOperations_new (logged (toy_sandbox False))) site_plan)
       = map record_of site_plan"
proof -
  have r1: "execute (foldl enqueue (BatchOperations_new (logged (toy_sandbox False))) site_plan) ([], [])
     = (Inr (logged (toy_sandbox False)),
        foldl enqueue (BatchOperations_new (logged (toy_sandbox False))) site_plan,
        ([''about''], map call_of site_plan))"
    by (simp add: batch_eval site_plan_def)
  have r2: "execute (foldl enqueue (BatchOperations_new (logged (toy_sandbox False))) site_plan) ([''about''], [])
     = (Inr (logged (toy_sandbox False)),
        foldl enqueue (BatchOperations_new (logged (toy_sandbox False))) site_plan,
        ([''about'', ''about''], map call_of site_plan))"
    by (simp add: batch_eval site_plan_def)
  show ?thesis
    using execute_keeps_queue [where q = "BatchOperations_new (toy_sandbox False)" and v = "[]",
        OF refl r1 r2] r1 r2
    by simp
qed

text \<open>
  Claim C9 as stated has the second run make all of the calls again. On a sandbox that
  refuses a page that exists, the first run of the plan resolves with its three calls;
  the second run makes only the first call, which throws, and the other two are not made.
\<close>

theorem execute_second_run_counterexample:
  "execute (foldl enqueue (BatchOperations_new (logged (toy_sandbox True))) site_plan) ([], [])
     = (Inr (logged (toy_sandbox True)),
        foldl enqueue (BatchOperations_new (logged (toy_sandbox True))) site_plan,
        ([''about''], map call_of site_plan))
   \<and> execute (foldl enqueue (BatchOperations_new (logged (toy_sandbox True))) site_plan) ([''about''], [])
     = (Inl (AssertionError ''page exists: about''),
        foldl enqueue (BatchOperations_new (logged (toy_sandbox True))) site_plan,
        ([''about''], [AddPage ''about'' no_options]))
   \<and> [AddPage ''about'' no_options] \<noteq> map call_of site_plan"
  by (simp add: batch_eval site_plan_def)

section \<open>Teardown\<close>

text \<open>
  Claim C6. Once \<open>setup\<close> has assigned a sandbox directory, \<open>cleanup\<close> never throws. It
  changes to the working directory saved at construction and then removes the sandbox
  directory; when both succeed the process is left as these two steps leave it. When the
  change of directory throws, or the removal does, the error is turned into one console
  warning that carries its message, and nothing else is done.
\<close>

theorem cleanup_never_throws:
  assumes "tempDir this = Some dir" and "dir \<noteq> []"
  shows "fst (cleanup os this w) = Inr ()
     \<and> (\<forall>w1 w2. os_chdir os (originalCwd this) w = (Inr (), w1) \<and> os_remove os dir w1 = (Inr (), w2)
            \<longrightarrow> snd (cleanup os this w) = w2)
     \<and> (\<forall>msg w1. os_chdir os (originalCwd this) w = (Inl msg, w1)
            \<longrightarrow> snd (cleanup os this w) = os_warn os (cleanup_warning dir msg) w1)
     \<and> (\<forall>w1 msg w2. os_chdir os (originalCwd this) w = (Inr (), w1) \<and> os_remove os dir w1 = (Inl msg, w2)
            \<longrightarrow> snd (cleanup os this w) = os_warn os (cleanup_warning dir msg) w2)"
  using assms
  by (auto simp: cleanup_def truthy_def split: prod.splits sum.splits)

text \<open>
  A teardown that succeeds, and one whose removal fails: the working directory is
  restored, one warning is printed, and nothing is thrown.
\<close>

theorem cleanup_never_throws_witness:
  "tempDir example_env = Some sandbox_dir \<and> sandbox_dir \<noteq> []
   \<and> cleanup simple_os example_env (running_process [])
       = (Inr (), \<lparr> cwd = ''/home/dev'', dirs = [''/home/dev''], busy = [], console = [] \<rparr>)
   \<and> fst (cleanup simple_os example_env (running_process [sandbox_dir])) = Inr ()
   \<and> cwd (snd (cleanup simple_os example_env (running_process [sandbox_dir]))) = ''/home/dev''
   \<and> console (snd (cleanup simple_os example_env (running_process [sandbox_dir])))
       = [cleanup_warning sandbox_dir (''EBUSY: resource busy or locked, rmdir '' @ sandbox_dir)]"
proof -
  have t: "tempDir example_env = Some sandbox_dir" and n: "sandbox_dir \<noteq> []"
    by (simp_all add: example_env_def sandbox_dir_def)
  have c: "os_chdir simple_os (originalCwd example_env) (running_process held)
             = (Inr (), running_process held\<lparr> cwd := ''/home/dev'' \<rparr>)" for held
    by (simp add: simple_os_def example_env_def running_process_def)
  have r: "os_remove simple_os sandbox_dir (running_process []\<lparr> cwd := ''/home/dev'' \<rparr>)
             = (Inr (), \<lparr> cwd = ''/home/dev'', dirs = [''/home/dev''], busy = [], console = [] \<rparr>)"
    by (simp add: simple_os_def running_process_def sandbox_dir_def)
  have b: "os_remove simple_os sandbox_dir (running_process [sandbox_dir]\<lparr> cwd := ''/home/dev'' \<rparr>)
             = (Inl (''EBUSY: resource busy or locked, rmdir '' @ sandbox_dir),
                running_process [sandbox_dir]\<lparr> cwd := ''/home/dev'' \<rparr>)"
    by (simp add: simple_os_def running_process_def)
  show ?thesis
    using cleanup_never_throws [OF t n, of simple_os "running_process []"]
      cleanup_never_throws [OF t n, of simple_os "running_process [sandbox_dir]"] t n c r b
    by (auto simp: prod_eq_iff simple_os_def running_process_def)
qed

section \<open>Timing an operation\<close>

lemma map_of_overwrite:
  "map_of (map (\<lambda>(k, x). if k = key then (k, v) else (k, x)) obj) k' =
     (if k' = key then (if key \<in> fst ` set obj then Some v else None) else map_of obj k')"
  by (induction obj) force+

lemma map_of_append_new:
  "key \<notin> fst ` set obj \<Longrightarrow> map_of (obj @ [(key, v)]) k = (if k = key then Some v else map_of obj k)"
  by (induction obj) auto

lemma map_of_obj_set_same:
  "key \<noteq> ''__proto__'' \<Longrightarrow> map_of (obj_set obj key v) key = Some v"
  by (simp add: obj_set_def map_of_overwrite map_of_append_new del: map_of_append)

lemma map_of_obj_set_other:
  "k \<noteq> key \<Longrightarrow> map_of (obj_set obj key v) k = map_of obj k"
  by (simp add: obj_set_def map_of_overwrite map_of_append_new del: map_of_append)

text \<open>
  Claim C8, as the code has it. \<open>timeOperation\<close> reads the clock before the operation
  and after it has completed. When the operation succeeds, the difference is written to
  the metrics object under the name, so that it replaces any earlier measurement of that
  name (for every name but \<^verbatim>\<open>__proto__\<close>, which an assignment cannot create) and leaves
  the others as they are, and the call resolves to the result with that same duration.
  When the operation throws, the exception propagates and nothing is recorded.
\<close>

theorem timeOperation_success_only:
  "(\<forall>result this1 w1. operation (this, w) = (Inr result, this1, w1) \<longrightarrow>
       timeOperation now this name operation w
         = (Inr (result, now w1 - now w),
            this1\<lparr> metrics := obj_set (metrics this1) name (now w1 - now w) \<rparr>, w1)
       \<and> (name \<noteq> ''__proto__'' \<longrightarrow>
            map_of (metrics (fst (snd (timeOperation now this name operation w)))) name
              = Some (now w1 - now w))
       \<and> (\<forall>k. k \<noteq> name \<longrightarrow>
            map_of (metrics (fst (snd (timeOperation now this name operation w)))) k
              = map_of (metrics this1) k))
   \<and> (\<forall>e this1 w1. operation (this, w) = (Inl e, this1, w1) \<longrightarrow>
       timeOperation now this name operation w = (Inl e, this1, w1))"
  by (auto simp: timeOperation_def Let_def map_of_obj_set_same map_of_obj_set_other)

text \<open>A measurement replaces the earlier one of the same name; a failing operation leaves it.\<close>

theorem timeOperation_success_only_witness:
  "slow_success (\<lparr> metrics = [(''page-creation'', 7)] \<rparr>, 1000)
     = (Inr ''done'', \<lparr> metrics = [(''page-creation'', 7)] \<rparr>, 1040)
   \<and> timeOperation (\<lambda>clock. clock) \<lparr> metrics = [(''page-creation'', 7)] \<rparr> ''page-creation'' slow_success 1000
     = (Inr (''done'', 40), \<lparr> metrics = [(''page-creation'', 40)] \<rparr>, 1040)
   \<and> slow_failure (\<lparr> metrics = [(''page-creation'', 7)] \<rparr>, 1000)
     = (Inl (AssertionError ''tool failed''), \<lparr> metrics = [(''page-creation'', 7)] \<rparr>, 1040)
   \<and> timeOperation (\<lambda>clock. clock) \<lparr> metrics = [(''page-creation'', 7)] \<rparr> ''page-creation'' slow_failure 1000
     = (Inl (AssertionError ''tool failed''), \<lparr> metrics = [(''page-creation'', 7)] \<rparr>, 1040)"
  using timeOperation_success_only [of slow_success "\<lparr> metrics = [(''page-creation'', 7)] \<rparr>" 1000
      "\<lambda>clock. clock" "''page-creation''"]
    timeOperation_success_only [of slow_failure "\<lparr> metrics = [(''page-creation'', 7)] \<rparr>" 1000
      "\<lambda>clock. clock" "''page-creation''"]
  by (simp add: slow_success_def slow_failure_def obj_set_def)

text \<open>
  Claim C8 as stated has the duration recorded in the failure case too. An operation
  that throws after 40 milliseconds leaves the metrics empty.
\<close>

theorem timeOperation_failure_counterexample:
  "timeOperation (\<lambda>clock. clock) \<lparr> metrics = [] \<rparr> ''page-creation'' slow_failure 1000
     = (Inl (AssertionError ''tool failed''), \<lparr> metrics = [] \<rparr>, 1040)
   \<and> map_of (metrics (fst (snd (timeOperation (\<lambda>clock. clock) \<lparr> metrics = [] \<rparr> ''page-creation''
                                    slow_failure 1000)))) ''page-creation'' = None"
  by (simp add: timeOperation_def slow_failure_def)

section \<open>Property paths into parsed YAML\<close>

lemma own_prop_yaml_value:
  assumes "yaml_value v" and "own_prop v key = Some x"
  shows "yaml_value x"
proof (cases v)
  case (JStr s)
  with assms show ?thesis by (auto split: if_splits)
next
  case (JArr xs)
  with assms show ?thesis by (auto simp: list_all_length split: if_splits)
next
  case (JObj kvs)
  with assms have "(key, x) \<in> set kvs" "list_all (\<lambda>kv. yaml_value (snd kv)) kvs"
    by (auto dest: map_of_SomeD)
  then show ?thesis by (auto simp: list_all_iff)
qed (use assms in auto)

lemma descend_undefined: "descend JUndefined keys = JUndefined"
  by (cases keys) simp_all

lemma reduce_keys_undefined: "reduce_keys inherited keys JUndefined = Inr JUndefined"
  by (induction keys) (simp_all add: get_prop_def)

lemma reduce_keys_descend:
  assumes "yaml_value v" and "own_keys_only inherited keys"
  shows "reduce_keys inherited keys v = Inr (descend v keys)"
  using assms
proof (induction keys arbitrary: v)
  case Nil
  then show ?case by simp
next
  case (Cons key keys)
  from Cons.prems(2) have rest: "own_keys_only inherited keys"
    and none: "inherited v key = None"
    using Cons.prems(1) by (simp_all add: own_keys_only_def)
  show ?case
  proof (cases "v = JNull")
    case True
    then show ?thesis by (simp add: get_prop_def reduce_keys_undefined)
  next
    case False
    from Cons.prems(1) have nu: "v \<noteq> JUndefined" by auto
    show ?thesis
    proof (cases "own_prop v key")
      case None
      with False nu none show ?thesis
        by (simp add: get_prop_def reduce_keys_undefined)
    next
      case (Some x)
      with Cons.prems(1) have "yaml_value x" by (rule own_prop_yaml_value)
      from Cons.IH [OF this rest] Some False nu show ?thesis
        by (simp add: get_prop_def)
    qed
  qed
qed

lemma expectFileExists_iff:
  "tempDir this = Some d \<Longrightarrow>
     expectFileExists this fsa filePath message = Inr () \<longleftrightarrow> fsa d filePath \<noteq> None"
  by (auto simp: expectFileExists_def fileExists_def)

lemma readYaml_iff:
  "tempDir this = Some d \<Longrightarrow>
     readYaml yaml_parse this fsa filePath = Inr doc
       \<longleftrightarrow> (\<exists>txt. fsa d filePath = Some (File txt) \<and> yaml_parse txt = Inr doc)"
  by (auto simp: readYaml_def readFile_def split: sum.splits option.splits entry.splits)

text \<open>
  Claim C7, as the code has it. For every value parsed from YAML and every dotted path
  whose keys name no inherited member, \<open>getNestedProperty\<close> returns (it does not throw)
  the value of the descent through own properties, which is \<^verbatim>\<open>undefined\<close> from the
  first key that is missing or whose holder is \<^verbatim>\<open>null\<close> or \<^verbatim>\<open>undefined\<close>; and
  \<open>expectYamlProperty\<close> passes exactly when the file exists, parses, and that value, be
  it \<^verbatim>\<open>undefined\<close>, equals the expectation.
\<close>

theorem getNestedProperty_descends:
  assumes "own_keys_only inherited (split CHR ''.'' path)"
  shows "(yaml_value obj \<longrightarrow>
            getNestedProperty inherited obj path = Inr (descend obj (split CHR ''.'' path)))
     \<and> (parses_data yaml_parse \<and> tempDir this = Some d \<longrightarrow>
          (expectYamlProperty yaml_parse to_equal inherited this fsa filePath path expected message = Inr ()
           \<longleftrightarrow> (\<exists>txt doc. fsa d filePath = Some (File txt) \<and> yaml_parse txt = Inr doc
                   \<and> to_equal (descend doc (split CHR ''.'' path)) expected)))"
proof (intro conjI impI)
  assume "yaml_value obj"
  then show "getNestedProperty inherited obj path = Inr (descend obj (split CHR ''.'' path))"
    using assms by (simp add: getNestedProperty_def reduce_keys_descend)
next
  assume a: "parses_data yaml_parse \<and> tempDir this = Some d"
  then have t: "tempDir this = Some d" and pd: "parses_data yaml_parse" by simp_all
  show "expectYamlProperty yaml_parse to_equal inherited this fsa filePath path expected message = Inr ()
        \<longleftrightarrow> (\<exists>txt doc. fsa d filePath = Some (File txt) \<and> yaml_parse txt = Inr doc
                \<and> to_equal (descend doc (split CHR ''.'' path)) expected)"
  proof (cases "readYaml yaml_parse this fsa filePath")
    case (Inl e)
    then have "\<not> (\<exists>txt doc. fsa d filePath = Some (File txt) \<and> yaml_parse txt = Inr doc)"
      using readYaml_iff [OF t, of yaml_parse fsa filePath] by auto
    with Inl show ?thesis
      by (auto simp: expectYamlProperty_def split: sum.splits)
  next
    case (Inr doc)
    then obtain stored where f: "fsa d filePath = Some (File stored)" "yaml_parse stored = Inr doc"
      using readYaml_iff [OF t, of yaml_parse fsa filePath doc] by auto
    with pd have "yaml_value doc" by (auto simp: parses_data_def)
    then have g: "getNestedProperty inherited doc path = Inr (descend doc (split CHR ''.'' path))"
      using assms by (simp add: getNestedProperty_def reduce_keys_descend)
    have ex: "expectFileExists this fsa filePath None = Inr ()"
      using f(1) by (simp add: expectFileExists_iff [OF t])
    show ?thesis
      using Inr g ex f by (auto simp: expectYamlProperty_def)
  qed
qed

lemma split_sections_length: "split CHR ''.'' ''sections.length'' = [''sections'', ''length'']"
  by simp

lemma split_title_text: "split CHR ''.'' ''title.text'' = [''title'', ''text'']"
  by simp

lemma split_constructor_name: "split CHR ''.'' ''constructor.name'' = [''constructor'', ''name'']"
  by simp

lemma ecma_core_own_keys: "''constructor'' \<notin> set keys \<Longrightarrow> own_keys_only ecma_core keys"
  by (auto simp: own_keys_only_def ecma_core_def split: jsval.splits)

lemma manifest_parser_data: "parses_data manifest_parser"
  by (auto simp: parses_data_def manifest_parser_def page_manifest_def split: if_splits)

text \<open>The length of a sequence, and a key below a \<^verbatim>\<open>null\<close> value.\<close>

theorem getNestedProperty_descends_witness:
  "own_keys_only ecma_core (split CHR ''.'' ''sections.length'')
   \<and> own_keys_only ecma_core (split CHR ''.'' ''title.text'')
   \<and> yaml_value page_manifest \<and> parses_data manifest_parser
   \<and> tempDir example_env = Some sandbox_dir
   \<and> getNestedProperty ecma_core page_manifest ''sections.length'' = Inr (JNum 2)
   \<and> getNestedProperty ecma_core page_manifest ''title.text'' = Inr JUndefined
   \<and> expectYamlProperty manifest_parser (=) ecma_core example_env
        (write_file empty_fs sandbox_dir ''pages/about/page.yml'' ''sections: [hero, intro]'')
        ''pages/about/page.yml'' ''sections.length'' (JNum 2) None = Inr ()"
proof -
  have k1: "own_keys_only ecma_core (split CHR ''.'' ''sections.length'')"
    unfolding split_sections_length by (rule ecma_core_own_keys) simp
  have k2: "own_keys_only ecma_core (split CHR ''.'' ''title.text'')"
    unfolding split_title_text by (rule ecma_core_own_keys) simp
  have y: "yaml_value page_manifest"
    by (simp add: page_manifest_def)
  have t: "tempDir example_env = Some sandbox_dir"
    by (simp add: example_env_def)
  have d1: "descend page_manifest (split CHR ''.'' ''sections.length'') = JNum 2"
    unfolding split_sections_length by (simp add: page_manifest_def)
  have d2: "descend page_manifest (split CHR ''.'' ''title.text'') = JUndefined"
    unfolding split_title_text by (simp add: page_manifest_def)
  have p: "manifest_parser ''sections: [hero, intro]'' = Inr page_manifest"
    by (simp add: manifest_parser_def)
  have f: "write_file empty_fs sandbox_dir ''pages/about/page.yml'' ''sections: [hero, intro]''
             sandbox_dir ''pages/about/page.yml'' = Some (File ''sections: [hero, intro]'')"
    by (simp add: write_file_def)
  show ?thesis
    using getNestedProperty_descends [OF k1, of page_manifest manifest_parser example_env sandbox_dir
        "(=)" "write_file empty_fs sandbox_dir ''pages/about/page.yml'' ''sections: [hero, intro]''"
        "''pages/about/page.yml''" "JNum 2" None]
      getNestedProperty_descends [OF k2, of page_manifest manifest_parser example_env sandbox_dir
        "(=)" empty_fs "[]" JUndefined None]
      k1 k2 y t d1 d2 p f manifest_parser_data
    by auto
qed

text \<open>
  Claim C7 as stated gives \<^verbatim>\<open>undefined\<close> as soon as a key is missing from the data. The
  manifest has no key \<^verbatim>\<open>constructor\<close>, yet the path \<^verbatim>\<open>constructor.name\<close> reads the
  inherited constructor and yields the string \<^verbatim>\<open>"Object"\<close>.
\<close>

theorem getNestedProperty_inherited_counterexample:
  "yaml_value page_manifest
   \<and> own_prop page_manifest ''constructor'' = None
   \<and> descend page_manifest (split CHR ''.'' ''constructor.name'') = JUndefined
   \<and> getNestedProperty ecma_core page_manifest ''constructor.name'' = Inr (JStr ''Object'')"
  unfolding getNestedProperty_def split_constructor_name
  by (simp add: page_manifest_def get_prop_def ecma_core_def)

section \<open>Building a document\<close>

lemma run_calls_append:
  "run_calls b (cs @ [c]) = (case run_calls b cs of Inl e \<Rightarrow> Inl e | Inr b1 \<Rightarrow> apply_call b1 c)"
  by (induction cs arbitrary: b) (auto split: sum.splits)

lemma list_items_frontMatter: "frontMatter (list_items b items) = frontMatter b"
proof -
  have "frontMatter (foldl (\<lambda>b item. b\<lparr> body := push (body b) [''- '' @ item] \<rparr>) b items) = frontMatter b"
    by (induction items arbitrary: b) simp_all
  then show ?thesis by (simp add: list_items_def)
qed

lemma apply_call_frontMatter:
  "apply_call b c = Inr b1 \<Longrightarrow> frontMatter b1 = foldl (\<lambda>obj (k, v). obj_set obj k v) (frontMatter b) (fm_write c)"
  by (cases c)
     (auto simp: component_def param_def title_def paragraph_md_def heading_def image_md_def
        link_def Let_def list_items_frontMatter obj_set_def split: if_splits)

lemma keys_obj_set:
  "map fst (obj_set obj key v) =
     (if key = ''__proto__'' \<or> key \<in> set (map fst obj) then map fst obj else map fst obj @ [key])"
  by (induction obj) (auto simp: obj_set_def)

lemma map_of_obj_set:
  "key \<noteq> ''__proto__'' \<Longrightarrow> map_of (obj_set obj key v) = (map_of obj)(key \<mapsto> v)"
  by (rule ext) (simp add: obj_set_def map_of_overwrite map_of_append_new del: map_of_append)

lemma insertion_order_snoc:
  "insertion_order (ks @ [k]) = (if k \<in> set ks then insertion_order ks else insertion_order ks @ [k])"
  by (simp add: insertion_order_def)

lemma set_insertion_order: "set (insertion_order ks) = set ks"
  by (simp add: insertion_order_def)

lemma distinct_insertion_order: "distinct (insertion_order ks)"
  by (simp add: insertion_order_def)

lemma frontMatter_of_calls:
  assumes "run_calls ContentBuilder_new cs = Inr b"
  shows "map fst (frontMatter b) = insertion_order (map fst (fm_writes cs))
         \<and> map_of (frontMatter b) = map_of (rev (fm_writes cs))"
  using assms
proof (induction cs arbitrary: b rule: rev_induct)
  case Nil
  then show ?case
    by (auto simp: ContentBuilder_new_def fm_writes_def insertion_order_def)
next
  case (snoc c cs)
  from snoc.prems obtain b0 where b0: "run_calls ContentBuilder_new cs = Inr b0"
    and step: "apply_call b0 c = Inr b"
    by (auto simp: run_calls_append split: sum.splits)
  note IH = snoc.IH [OF b0]
  have fm: "frontMatter b = foldl (\<lambda>obj (k, v). obj_set obj k v) (frontMatter b0) (fm_write c)"
    using step by (rule apply_call_frontMatter)
  show ?case
  proof (cases "fm_write c")
    case Nil
    with fm IH show ?thesis by (simp add: fm_writes_def)
  next
    case (Cons kv rest)
    then obtain k v where kv: "fm_write c = [(k, v)]" and np: "k \<noteq> ''__proto__''"
      by (cases c) (auto split: if_splits)
    have w: "fm_writes (cs @ [c]) = fm_writes cs @ [(k, v)]"
      using kv by (simp add: fm_writes_def)
    have "frontMatter b = obj_set (frontMatter b0) k v"
      using fm kv by simp
    moreover have "k \<in> set (map fst (frontMatter b0)) \<longleftrightarrow> k \<in> set (map fst (fm_writes cs))"
      using IH by (simp add: set_insertion_order)
    ultimately show ?thesis
      using IH np
      by (simp add: w keys_obj_set map_of_obj_set insertion_order_snoc)
  qed
qed

lemma length_own_key_order: "length (own_key_order ks) = length ks"
  by (simp add: own_key_order_def sum_length_filter_compl)

lemma set_own_key_order: "set (own_key_order ks) = set ks"
  by (auto simp: own_key_order_def)

lemma own_key_order_no_index: "\<forall>k\<in>set ks. \<not> is_array_index k \<Longrightarrow> own_key_order ks = ks"
  by (simp add: own_key_order_def filter_empty_conv [THEN iffD2])

lemma entries_of_keys:
  "\<forall>k\<in>set ks. map_of obj k \<noteq> None \<Longrightarrow>
     map fst (List.map_filter (\<lambda>k. map_option (\<lambda>v. (k, v)) (map_of obj k)) ks) = ks"
  by (induction ks) (auto simp: map_filter_simps)

lemma entries_of_own_keys:
  "distinct (map fst obj) \<Longrightarrow>
     List.map_filter (\<lambda>k. map_option (\<lambda>v. (k, v)) (map_of obj k)) (map fst obj) = obj"
proof (induction obj)
  case Nil
  then show ?case by (simp add: map_filter_simps)
next
  case (Cons kv obj)
  obtain k v where kv: "kv = (k, v)" by (cases kv)
  from Cons.prems kv have nk: "k \<notin> set (map fst obj)" and d: "distinct (map fst obj)"
    by simp_all
  have "List.map_filter (\<lambda>x. map_option (\<lambda>y. (x, y)) (map_of ((k, v) # obj) x)) (map fst obj)
        = List.map_filter (\<lambda>x. map_option (\<lambda>y. (x, y)) (map_of obj x)) (map fst obj)"
    unfolding List.map_filter_def using nk
    by (intro arg_cong2 [where f = map] filter_cong refl map_cong) auto
  with Cons.IH [OF d] kv show ?case
    by (simp add: map_filter_simps)
qed

lemma keys_of_Object_entries: "map fst (Object_entries obj) = Object_keys obj"
  unfolding Object_entries_def
  by (rule entries_of_keys)
     (auto simp: Object_keys_def set_own_key_order map_of_eq_None_iff)

lemma Object_entries_no_index:
  assumes "distinct (map fst obj)" and "\<forall>k\<in>set (map fst obj). \<not> is_array_index k"
  shows "Object_entries obj = obj"
  using assms
  by (simp add: Object_entries_def Object_keys_def own_key_order_no_index entries_of_own_keys)

lemma set_entries_of_keys:
  "set (List.map_filter (\<lambda>k. map_option (\<lambda>v. (k, v)) (m k)) ks) = {(k, v). k \<in> set ks \<and> m k = Some v}"
  by (induction ks) (auto simp: map_filter_simps split: option.splits)

lemma set_Object_entries:
  assumes "distinct (map fst obj)"
  shows "set (Object_entries obj) = set obj"
proof -
  have "set (Object_entries obj)
        = {(k, v). k \<in> set (Object_keys obj) \<and> map_of obj k = Some v}"
    by (simp add: Object_entries_def set_entries_of_keys)
  also have "\<dots> = set obj"
    using assms by (auto simp: Object_keys_def set_own_key_order dest: map_of_SomeD
        intro: rev_image_eqI)
  finally show ?thesis .
qed

lemma Object_entries_Nil: "Object_entries obj = [] \<longleftrightarrow> obj = []"
proof -
  have "length (Object_entries obj) = length obj"
    using keys_of_Object_entries [of obj, THEN arg_cong, of length]
    by (simp add: Object_keys_def length_own_key_order)
  then show ?thesis by (metis length_0_conv)
qed

lemma build_as_specified:
  "build to_str b = front_matter_block to_str (Object_entries (frontMatter b))
                      @ join [newline, newline] (body b)"
proof (cases "frontMatter b = []")
  case True
  then show ?thesis
    by (simp add: build_def front_matter_block_def Object_keys_def Object_entries_def
          own_key_order_def map_filter_simps)
next
  case False
  then have "Object_entries (frontMatter b) \<noteq> []" "length (Object_keys (frontMatter b)) > 0"
    by (simp_all add: Object_entries_Nil Object_keys_def length_own_key_order)
  then show ?thesis
    by (simp add: build_def front_matter_block_def Let_def split: list.splits)
qed

text \<open>
  Claim C5, as the code has it. For every sequence of builder calls that completes, the
  front-matter object holds each key once, in the order the keys were first written,
  with the value written last. \<open>build\<close> returns the front-matter block followed by the
  body blocks joined by a blank line, and the body alone when the object is empty. The
  lines of the block follow \<^verbatim>\<open>Object.entries\<close>: the same keys and values, the keys that
  are array indices first in ascending numeric order, then the other keys in insertion
  order; so the lines are in insertion order whenever no key is an array index.
\<close>

theorem build_renders:
  assumes "run_calls ContentBuilder_new cs = Inr b"
  shows "map fst (frontMatter b) = insertion_order (map fst (fm_writes cs))
     \<and> map_of (frontMatter b) = map_of (rev (fm_writes cs))
     \<and> build to_str b = front_matter_block to_str (Object_entries (frontMatter b))
                          @ join [newline, newline] (body b)
     \<and> map fst (Object_entries (frontMatter b)) = own_key_order (insertion_order (map fst (fm_writes cs)))
     \<and> set (Object_entries (frontMatter b)) = set (frontMatter b)
     \<and> ((\<forall>k\<in>set (map fst (fm_writes cs)). \<not> is_array_index k)
          \<longrightarrow> Object_entries (frontMatter b) = frontMatter b)"
proof -
  note inv = frontMatter_of_calls [OF assms]
  have d: "distinct (map fst (frontMatter b))"
    using inv by (simp add: distinct_insertion_order)
  have "(\<forall>k\<in>set (map fst (fm_writes cs)). \<not> is_array_index k)
          \<longrightarrow> Object_entries (frontMatter b) = frontMatter b"
  proof
    assume "\<forall>k\<in>set (map fst (fm_writes cs)). \<not> is_array_index k"
    then have "\<forall>k\<in>set (map fst (frontMatter b)). \<not> is_array_index k"
      using inv by (simp add: set_insertion_order)
    with d show "Object_entries (frontMatter b) = frontMatter b"
      by (rule Object_entries_no_index)
  qed
  moreover have "map fst (Object_entries (frontMatter b))
                   = own_key_order (insertion_order (map fst (fm_writes cs)))"
    using inv by (simp add: keys_of_Object_entries Object_keys_def)
  ultimately show ?thesis
    using inv d by (simp add: build_as_specified set_Object_entries)
qed

lemmas builder_eval = ContentBuilder_new_def component_def param_def title_def paragraph_md_def
  obj_set_def push_def

lemma is_array_index_1: "is_array_index ''1''" "\<not> is_array_index ''b''"
  "\<not> is_array_index ''component''" "\<not> is_array_index ''layout''"
  by (simp_all add: is_array_index_def is_digit_def dec_val_def)

lemma hero_run:
  "run_calls ContentBuilder_new hero_calls
     = Inr \<lparr> frontMatter = [(''component'', ''Hero''), (''layout'', ''split'')],
             body = [''# Welcome'', ''Bio''] \<rparr>"
  by (simp add: hero_calls_def builder_eval)

text \<open>A front matter of two keys, one of them written twice, and two body blocks.\<close>

theorem build_renders_witness:
  "run_calls ContentBuilder_new hero_calls
     = Inr \<lparr> frontMatter = [(''component'', ''Hero''), (''layout'', ''split'')],
             body = [''# Welcome'', ''Bio''] \<rparr>
   \<and> build id \<lparr> frontMatter = [(''component'', ''Hero''), (''layout'', ''split'')],
                 body = [''# Welcome'', ''Bio''] \<rparr>
       = ''---'' @ [newline] @ ''component: Hero'' @ [newline] @ ''layout: split'' @ [newline]
           @ ''---'' @ [newline, newline] @ ''# Welcome'' @ [newline, newline] @ ''Bio''"
proof -
  have w: "fm_writes hero_calls = [(''component'', ''Hero''), (''layout'', ''centered''), (''layout'', ''split'')]"
    by (simp add: fm_writes_def hero_calls_def)
  have n: "\<forall>k\<in>set (map fst (fm_writes hero_calls)). \<not> is_array_index k"
    by (simp add: w is_array_index_1)
  show ?thesis
    using build_renders [OF hero_run, of id] n hero_run
    by (simp add: front_matter_block_def)
qed

text \<open>
  Claim C5 as stated lists the lines in key insertion order. After \<^verbatim>\<open>param("b", "x")\<close>
  and \<^verbatim>\<open>param("1", "y")\<close> the line of the key \<^verbatim>\<open>1\<close>, inserted second, comes first.
\<close>

theorem build_key_order_counterexample:
  "run_calls ContentBuilder_new numbered_calls
     = Inr \<lparr> frontMatter = [(''b'', ''x''), (''1'', ''y'')], body = [] \<rparr>
   \<and> build id \<lparr> frontMatter = [(''b'', ''x''), (''1'', ''y'')], body = [] \<rparr>
       = ''---'' @ [newline] @ ''1: y'' @ [newline] @ ''b: x'' @ [newline] @ ''---'' @ [newline, newline]
   \<and> front_matter_block id [(''b'', ''x''), (''1'', ''y'')] @ join [newline, newline] []
       = ''---'' @ [newline] @ ''b: x'' @ [newline] @ ''1: y'' @ [newline] @ ''---'' @ [newline, newline]
   \<and> build id \<lparr> frontMatter = [(''b'', ''x''), (''1'', ''y'')], body = [] \<rparr>
       \<noteq> front_matter_block id [(''b'', ''x''), (''1'', ''y'')] @ join [newline, newline] []"
  by (simp add: numbered_calls_def builder_eval build_def Object_keys_def Object_entries_def
        own_key_order_def is_array_index_1 front_matter_block_def map_filter_simps)

end
